theory Spec2Isabelle
  imports Complex_Main "HOL-Library.AList" "HOL-Library.Sublist" "HOL-Library.Product_Lexorder"
begin

chapter \<open>Route resolution and caching of UnisonMap: the embedding\<close>

section \<open>Values, exceptions and settings\<close>

text \<open>
  JSON-like Python values: the upstream response, the error details and the route result
  are built from these. A dict is an association list in insertion order
  (\<open>AList.update\<close> is Python's \<open>d[k] = v\<close>: an existing key keeps its place).
  Python's \<open>str\<close> is a list of code points; the model covers the code points below 256,
  one \<open>char\<close> each. Floats are modelled by exact rationals.
\<close>

datatype json =
    JNull
  | JBool bool
  | JInt int
  | JNum rat
  | JStr string
  | JList "json list"
  | JDict "(string \<times> json) list"

text \<open>
  FastAPI's \<open>HTTPException(status_code, detail)\<close>: the detail is either a dict or a plain
  string, exactly as the raising site passes it.
\<close>

datatype detail = DetailDict "(string \<times> json) list" | DetailStr string

datatype py_exc =
    HTTPException int detail
  | ValueError string
  | KeyError string
  | IndexError string
  | TypeError string
  | AttributeError string
  | RuntimeError string
  | OtherError string

text \<open>\<open>app/core/config.py\<close>: the settings the routing subsystem reads.\<close>

record settings =
  ORS_API_KEY :: string
  ORS_BASE_URL :: string
  ORS_MAX_RETRIES :: int
  ORS_BACKOFF_FACTOR :: rat
  ORS_ALLOWED_PROFILES :: "string list"
  CACHE_TTL_SECONDS :: int
  CACHE_MAX_TTL_SECONDS :: int
  CACHE_LOCK_TIMEOUT_SECONDS :: int

text \<open>
  An awaited call either returns or leaves the coroutine parked on a future that only
  another coroutine can resolve.
\<close>

datatype 'a awaited = Returned 'a | Suspended

section \<open>\<open>_resolve_cache_ttl\<close>\<close>

text \<open>
  \<open>override_ttl\<close> is \<open>Optional[int]\<close>, so \<open>int(override_ttl)\<close> is the identity and its
  \<open>except\<close> branch is not reachable.
\<close>

definition resolve_cache_ttl :: "settings \<Rightarrow> int option \<Rightarrow> int" where
  "resolve_cache_ttl st override_ttl =
     (let ttl = (case override_ttl of
                   None \<Rightarrow> CACHE_TTL_SECONDS st
                 | Some v \<Rightarrow> max 0 v)
      in if ttl = 0 then 0 else min ttl (CACHE_MAX_TTL_SECONDS st))"

section \<open>The cache backends (\<open>cache_service.py\<close>)\<close>

subsection \<open>\<open>asyncio.Lock\<close>\<close>

text \<open>
  The lock of the standard library, reduced to its flag: \<open>acquire\<close> on a free lock sets
  the flag and returns \<open>True\<close>; on a held lock it parks the caller until a release;
  \<open>release\<close> on a free lock raises \<open>RuntimeError\<close>.
\<close>

record alock =
  locked :: bool

definition new_Lock :: alock where
  "new_Lock = \<lparr>locked = False\<rparr>"

definition Lock_acquire :: "alock \<Rightarrow> (bool \<times> alock) awaited" where
  "Lock_acquire l = (if locked l then Suspended else Returned (True, l\<lparr>locked := True\<rparr>))"

definition Lock_release :: "alock \<Rightarrow> py_exc + alock" where
  "Lock_release l =
     (if locked l then Inr (l\<lparr>locked := False\<rparr>)
      else Inl (RuntimeError ''Lock is not acquired.''))"

subsection \<open>\<open>SQLiteCache\<close>\<close>

text \<open>
  The table \<open>routes_cache\<close> maps a key to its payload and expiry; serialisation is taken
  to round-trip, so the row holds the payload itself. \<open>now\<close> is \<open>int(time.time())\<close>.
\<close>

record 'p sqlite_cache =
  conn_open :: bool
  routes_cache :: "string \<rightharpoonup> ('p \<times> int)"
  lock_table :: "string \<rightharpoonup> alock"

definition sqlite_not_initialized :: py_exc where
  "sqlite_not_initialized = RuntimeError ''SQLiteCache no inicializado''"

definition SQLiteCache_get ::
  "int \<Rightarrow> string \<Rightarrow> 'p sqlite_cache \<Rightarrow> (py_exc + 'p option) \<times> 'p sqlite_cache" where
  "SQLiteCache_get now key c =
     (if \<not> conn_open c then (Inl sqlite_not_initialized, c)
      else case routes_cache c key of
             None \<Rightarrow> (Inr None, c)
           | Some (payload, expires_at) \<Rightarrow>
               if expires_at \<le> now
               then (Inr None, c\<lparr>routes_cache := (routes_cache c)(key := None)\<rparr>)
               else (Inr (Some payload), c))"

definition SQLiteCache_set ::
  "int \<Rightarrow> string \<Rightarrow> 'p \<Rightarrow> int \<Rightarrow> 'p sqlite_cache \<Rightarrow> (py_exc + unit) \<times> 'p sqlite_cache" where
  "SQLiteCache_set now key payload ttl_seconds c =
     (if \<not> conn_open c then (Inl sqlite_not_initialized, c)
      else (Inr (), c\<lparr>routes_cache := (routes_cache c)(key \<mapsto> (payload, now + ttl_seconds))\<rparr>))"

definition SQLiteCache_acquire_lock ::
  "string \<Rightarrow> int \<Rightarrow> 'p sqlite_cache \<Rightarrow> ((py_exc + string option) \<times> 'p sqlite_cache) awaited" where
  "SQLiteCache_acquire_lock key ttl_seconds c =
     (let lock = (case lock_table c key of None \<Rightarrow> new_Lock | Some l \<Rightarrow> l)
      in case Lock_acquire lock of
           Suspended \<Rightarrow> Suspended
         | Returned (acquired, lock') \<Rightarrow>
             Returned (Inr (if acquired then Some key else None),
                       c\<lparr>lock_table := (lock_table c)(key \<mapsto> lock')\<rparr>))"

definition SQLiteCache_release_lock ::
  "string \<Rightarrow> string \<Rightarrow> 'p sqlite_cache \<Rightarrow> (py_exc + unit) \<times> 'p sqlite_cache" where
  "SQLiteCache_release_lock key token c =
     (case lock_table c key of
        None \<Rightarrow> (Inr (), c)
      | Some lock \<Rightarrow>
          if locked lock
          then (case Lock_release lock of
                  Inl e \<Rightarrow> (Inl e, c)
                | Inr lock' \<Rightarrow> (Inr (), c\<lparr>lock_table := (lock_table c)(key \<mapsto> lock')\<rparr>))
          else (Inr (), c))"

subsection \<open>\<open>RedisCache\<close>\<close>

text \<open>
  The Redis server as a map from keys to a value and its expiry time; an entry whose
  expiry has passed is absent. \<open>SET key value NX EX ttl\<close> stores only when the key is
  absent and answers whether it stored; an expiry that is not positive is an error of
  the server. The token is the fresh \<open>uuid4()\<close> of the call.
\<close>

datatype 'p redis_val = RPayload 'p | RToken string

record 'p redis_cache =
  client_ready :: bool
  script_registered :: bool
  kv :: "string \<rightharpoonup> ('p redis_val \<times> int)"

definition LOCK_KEY_PREFIX :: string where
  "LOCK_KEY_PREFIX = ''lock:route:''"

definition redis_not_initialized :: py_exc where
  "redis_not_initialized = RuntimeError ''RedisCache no inicializado''"

definition redis_lookup :: "int \<Rightarrow> 'p redis_cache \<Rightarrow> string \<Rightarrow> 'p redis_val option" where
  "redis_lookup now c k =
     (case kv c k of
        None \<Rightarrow> None
      | Some (v, expires_at) \<Rightarrow> if expires_at \<le> now then None else Some v)"

definition RedisCache_get ::
  "int \<Rightarrow> string \<Rightarrow> 'p redis_cache \<Rightarrow> (py_exc + 'p option) \<times> 'p redis_cache" where
  "RedisCache_get now key c =
     (if \<not> client_ready c then (Inl redis_not_initialized, c)
      else case redis_lookup now c key of
             None \<Rightarrow> (Inr None, c)
           | Some (RPayload p) \<Rightarrow> (Inr (Some p), c)
           | Some (RToken t) \<Rightarrow> (Inl (OtherError ''JSONDecodeError''), c))"

definition RedisCache_set ::
  "int \<Rightarrow> string \<Rightarrow> 'p \<Rightarrow> int \<Rightarrow> 'p redis_cache \<Rightarrow> (py_exc + unit) \<times> 'p redis_cache" where
  "RedisCache_set now key payload ttl_seconds c =
     (if \<not> client_ready c then (Inl redis_not_initialized, c)
      else if ttl_seconds \<le> 0 then (Inl (OtherError ''invalid expire time in set''), c)
      else (Inr (), c\<lparr>kv := (kv c)(key \<mapsto> (RPayload payload, now + ttl_seconds))\<rparr>))"

definition RedisCache_acquire_lock ::
  "int \<Rightarrow> string \<Rightarrow> string \<Rightarrow> int \<Rightarrow> 'p redis_cache
     \<Rightarrow> ((py_exc + string option) \<times> 'p redis_cache) awaited" where
  "RedisCache_acquire_lock now token key ttl_seconds c =
     (let lock_key = LOCK_KEY_PREFIX @ key
      in if \<not> client_ready c then Returned (Inl redis_not_initialized, c)
         else if ttl_seconds \<le> 0
           then Returned (Inl (OtherError ''invalid expire time in set''), c)
         else case redis_lookup now c lock_key of
                None \<Rightarrow>
                  Returned (Inr (Some token),
                            c\<lparr>kv := (kv c)(lock_key \<mapsto> (RToken token, now + ttl_seconds))\<rparr>)
              | Some held \<Rightarrow> Returned (Inr None, c))"

definition RedisCache_release_lock ::
  "int \<Rightarrow> string \<Rightarrow> string \<Rightarrow> 'p redis_cache \<Rightarrow> (py_exc + unit) \<times> 'p redis_cache" where
  "RedisCache_release_lock now key token c =
     (if \<not> script_registered c then (Inr (), c)
      else let lock_key = LOCK_KEY_PREFIX @ key
           in if redis_lookup now c lock_key = Some (RToken token)
              then (Inr (), c\<lparr>kv := (kv c)(lock_key := None)\<rparr>)
              else (Inr (), c))"

subsection \<open>\<open>CacheService.wait_for_value\<close>\<close>

text \<open>
  The polling loop of the base class: up to \<open>attempts\<close> reads, a sleep after each miss.
  An exception of \<open>get\<close> leaves the loop.
\<close>

fun wait_for_value_loop ::
  "(string \<Rightarrow> 'w \<Rightarrow> (py_exc + 'p option) \<times> 'w) \<Rightarrow> ('w \<Rightarrow> 'w) \<Rightarrow> string \<Rightarrow> nat \<Rightarrow> 'w
     \<Rightarrow> (py_exc + 'p option) \<times> 'w" where
  "wait_for_value_loop get_op sleep key 0 w = (Inr None, w)"
| "wait_for_value_loop get_op sleep key (Suc n) w =
     (case get_op key w of
        (Inl e, w') \<Rightarrow> (Inl e, w')
      | (Inr (Some cached), w') \<Rightarrow> (Inr (Some cached), w')
      | (Inr None, w') \<Rightarrow> wait_for_value_loop get_op sleep key n (sleep w'))"

definition CacheService_wait_for_value ::
  "(string \<Rightarrow> 'w \<Rightarrow> (py_exc + 'p option) \<times> 'w) \<Rightarrow> ('w \<Rightarrow> 'w) \<Rightarrow> string \<Rightarrow> int \<Rightarrow> 'w
     \<Rightarrow> (py_exc + 'p option) \<times> 'w" where
  "CacheService_wait_for_value get_op sleep key attempts w =
     wait_for_value_loop get_op sleep key (nat attempts) w"

section \<open>Python strings\<close>

text \<open>
  \<open>str.isspace\<close> and the class \<open>\s\<close> of \<open>re\<close> agree; below 256 the whitespace code
  points are 9 to 13, 28 to 32, 133 and 160. \<open>str.lower\<close> below 256 moves \<open>A\<close> to \<open>Z\<close>
  and the accented capitals 192 to 222 (but the multiplication sign 215) up by 32.
\<close>

definition isspace :: "char \<Rightarrow> bool" where
  "isspace c = (let n = (of_char c :: nat)
                in (9 \<le> n \<and> n \<le> 13) \<or> (28 \<le> n \<and> n \<le> 32) \<or> n = 133 \<or> n = 160)"

definition lstrip :: "string \<Rightarrow> string" where
  "lstrip s = dropWhile isspace s"

definition rstrip :: "string \<Rightarrow> string" where
  "rstrip s = rev (dropWhile isspace (rev s))"

definition strip :: "string \<Rightarrow> string" where
  "strip s = lstrip (rstrip s)"

definition lower_char :: "char \<Rightarrow> char" where
  "lower_char c = (let n = (of_char c :: nat)
                   in if (65 \<le> n \<and> n \<le> 90) \<or> (192 \<le> n \<and> n \<le> 222 \<and> n \<noteq> 215)
                      then char_of (n + 32) else c)"

definition lower :: "string \<Rightarrow> string" where
  "lower s = map lower_char s"

text \<open>Python's \<open>a in b\<close> on strings: \<open>a\<close> occurs in \<open>b\<close> as a contiguous run.\<close>

definition str_in :: "string \<Rightarrow> string \<Rightarrow> bool" where
  "str_in a b = sublist a b"

text \<open>\<open>str(n)\<close> of an integer, in decimal.\<close>

definition digit_char :: "nat \<Rightarrow> char" where
  "digit_char d = char_of (48 + d)"

function str_nat :: "nat \<Rightarrow> string" where
  "str_nat n = (if n < 10 then [digit_char n] else str_nat (n div 10) @ [digit_char (n mod 10)])"
  by pat_completeness auto
termination
  by (relation "measure id") auto

declare str_nat.simps [simp del]

definition str_int :: "int \<Rightarrow> string" where
  "str_int i = (if i < 0 then CHR ''-'' # str_nat (nat (- i)) else str_nat (nat i))"

text \<open>\<open>re.sub(r"\s+", " ", s)\<close>: every maximal run of whitespace becomes one space.\<close>

function collapse_ws :: "string \<Rightarrow> string" where
  "collapse_ws [] = []"
| "collapse_ws (c # cs) =
     (if isspace c then CHR '' '' # collapse_ws (dropWhile isspace cs)
      else c # collapse_ws cs)"
  by pat_completeness auto
termination
  by (relation "measure length") (auto simp: length_dropWhile_le less_Suc_eq_le)

section \<open>\<open>_normalize_step_text\<close>\<close>

definition MAX_STEP_TEXT_LENGTH :: nat where
  "MAX_STEP_TEXT_LENGTH = 240"

definition MAX_ROUTE_STEPS :: nat where
  "MAX_ROUTE_STEPS = 200"

definition DEFAULT_PROFILE :: string where
  "DEFAULT_PROFILE = ''foot-walking''"

text \<open>
  \<open>instruction\<close> and \<open>name\<close> are what \<open>step.get(...)\<close> gave: any JSON value, \<open>JNull\<close>
  for a missing key. The raw instruction is never empty when the name is appended, so the
  alternative \<open>Continua en ...\<close> of the source is kept only for the diff.
\<close>

definition step_name_of :: "json \<Rightarrow> string" where
  "step_name_of name = (case name of JStr s \<Rightarrow> strip s | _ \<Rightarrow> [])"

definition raw_instruction_of :: "json \<Rightarrow> int \<Rightarrow> string" where
  "raw_instruction_of instruction step_index =
     (let raw_instruction = (case instruction of JStr s \<Rightarrow> strip s | _ \<Rightarrow> [])
      in if raw_instruction = [] then ''Paso '' @ str_int step_index else raw_instruction)"

definition name_appended :: "string \<Rightarrow> string \<Rightarrow> bool" where
  "name_appended step_name raw_instruction =
     (step_name \<noteq> [] \<and> \<not> str_in (lower step_name) (lower raw_instruction))"

definition truncate_text :: "string \<Rightarrow> string" where
  "truncate_text normalized =
     (if length normalized > MAX_STEP_TEXT_LENGTH
      then rstrip (take (MAX_STEP_TEXT_LENGTH - 3) normalized) @ ''...''
      else normalized)"

definition normalize_step_text :: "json \<Rightarrow> json \<Rightarrow> int \<Rightarrow> string" where
  "normalize_step_text instruction name step_index =
     (let raw_instruction = raw_instruction_of instruction step_index;
          step_name = step_name_of name;
          raw_instruction =
            (if name_appended step_name raw_instruction
             then (if raw_instruction \<noteq> [] then raw_instruction @ '' en '' @ step_name
                   else ''Contin'' @ [CHR 0xFA] @ ''a en '' @ step_name)
             else raw_instruction);
          normalized = strip (collapse_ws raw_instruction)
      in truncate_text normalized)"

text \<open>How many times \<open>name\<close> occurs in a text, counting every start position.\<close>

definition count_occurrences :: "string \<Rightarrow> string \<Rightarrow> nat" where
  "count_occurrences name s = length (filter (prefix name) (suffixes s))"

text \<open>
  A text is single-spaced when its only whitespace characters are single spaces, none of
  them followed by another whitespace character.
\<close>

fun single_spaced :: "string \<Rightarrow> bool" where
  "single_spaced [] = True"
| "single_spaced [c] = (\<not> isspace c \<or> c = CHR '' '')"
| "single_spaced (c # d # cs) =
     ((\<not> isspace c \<or> (c = CHR '' '' \<and> \<not> isspace d)) \<and> single_spaced (d # cs))"

section \<open>Coordinate and profile validation\<close>

text \<open>
  What a caller can pass as a coordinate entry: a number, a float that is not finite
  (\<open>nan\<close>, \<open>inf\<close>: \<open>float()\<close> accepts it and every range comparison fails or is out of
  range), or a value on which \<open>float()\<close> raises \<open>TypeError\<close> or \<open>ValueError\<close>. A pair is
  a list or tuple of entries, or something else; the whole argument is a list or not.
\<close>

datatype raw_num = RawNum rat | RawNonFinite | RawBad

datatype raw_pair = RawPair "raw_num list" | RawNotPair

datatype raw_coords = RawCoords "raw_pair list" | RawNotList

definition invalid_payload :: "string \<Rightarrow> py_exc" where
  "invalid_payload message =
     HTTPException 400 (DetailDict
       [(''code'', JStr ''invalid_payload''),
        (''message'', JStr message),
        (''field'', JStr ''coordinates'')])"

fun validate_pairs :: "string \<Rightarrow> nat \<Rightarrow> raw_pair list \<Rightarrow> py_exc + rat list list" where
  "validate_pairs ctx idx [] = Inr []"
| "validate_pairs ctx idx (pair # rest) =
     (case pair of
        RawNotPair \<Rightarrow>
          Inl (invalid_payload (''Coordenada #'' @ str_nat (idx + 1) @ '' inv'' @ [CHR 0xE1]
                 @ ''lida; se esperaba [lon, lat]'' @ ctx))
      | RawPair entries \<Rightarrow>
          if length entries < 2
          then Inl (invalid_payload (''Coordenada #'' @ str_nat (idx + 1) @ '' inv''
                 @ [CHR 0xE1] @ ''lida; se esperaba [lon, lat]'' @ ctx))
          else if entries ! 0 = RawBad \<or> entries ! 1 = RawBad
          then Inl (invalid_payload (''Coordenada #'' @ str_nat (idx + 1)
                 @ '' contiene valores no num'' @ [CHR 0xE9] @ ''ricos'' @ ctx))
          else (case (entries ! 0, entries ! 1) of
                  (RawNum lon, RawNum lat) \<Rightarrow>
                    if \<not> (-180 \<le> lon \<and> lon \<le> 180) \<or> \<not> (-90 \<le> lat \<and> lat \<le> 90)
                    then Inl (invalid_payload (''Coordenada #'' @ str_nat (idx + 1)
                           @ '' fuera de rango lon/lat'' @ ctx))
                    else (case validate_pairs ctx (idx + 1) rest of
                            Inl e \<Rightarrow> Inl e
                          | Inr sanitized \<Rightarrow> Inr ([lon, lat] # sanitized))
                | _ \<Rightarrow>
                    Inl (invalid_payload (''Coordenada #'' @ str_nat (idx + 1)
                           @ '' fuera de rango lon/lat'' @ ctx))))"

definition validate_coordinates :: "raw_coords \<Rightarrow> string \<Rightarrow> py_exc + rat list list" where
  "validate_coordinates coordenadas source =
     (let ctx = (if source \<noteq> [] then '' ('' @ source @ '')'' else [])
      in case coordenadas of
           RawNotList \<Rightarrow>
             Inl (invalid_payload (''Se requieren al menos dos puntos [lon, lat]'' @ ctx))
         | RawCoords pairs \<Rightarrow>
             if length pairs < 2
             then Inl (invalid_payload (''Se requieren al menos dos puntos [lon, lat]'' @ ctx))
             else validate_pairs ctx 0 pairs)"

definition normalize_allowed_profiles :: "settings \<Rightarrow> string list option \<Rightarrow> string list" where
  "normalize_allowed_profiles st allowed_profiles =
     (let profiles = (case allowed_profiles of Some ps \<Rightarrow> ps | None \<Rightarrow> ORS_ALLOWED_PROFILES st);
          normalized = map (\<lambda>profile. lower (strip profile))
                         (filter (\<lambda>profile. strip profile \<noteq> []) profiles)
      in if normalized = [] then [DEFAULT_PROFILE] else normalized)"

definition normalize_profile ::
  "settings \<Rightarrow> string option \<Rightarrow> string list option \<Rightarrow> py_exc + string" where
  "normalize_profile st profile allowed_profiles =
     (let normalized_allowed = normalize_allowed_profiles st allowed_profiles;
          candidate = (case profile of
                         Some p \<Rightarrow> if strip p \<noteq> [] then lower (strip p) else hd normalized_allowed
                       | None \<Rightarrow> hd normalized_allowed)
      in if candidate \<notin> set normalized_allowed
         then Inl (HTTPException 400 (DetailDict
                [(''code'', JStr ''invalid_profile''),
                 (''allowed'', JList (map JStr normalized_allowed)),
                 (''received'', JStr candidate)]))
         else Inr candidate)"

section \<open>The upstream client (\<open>ORSService._hacer_peticion_ors\<close>)\<close>

text \<open>
  One HTTP exchange ends in a timeout, in another request error, or in a response.
  \<open>json_body\<close> is what \<open>response.json()\<close> returns, \<open>None\<close> when it raises
  \<open>JSONDecodeError\<close>. The network is a function from the attempt number to its outcome.
\<close>

record http_response =
  status_code :: int
  json_body :: "json option"
  body_text :: string

datatype http_outcome = TimeoutException | RequestError | Response http_response

datatype client_event = Post nat | Sleep rat

definition is_int_or_str :: "json \<Rightarrow> bool" where
  "is_int_or_str v = (case v of JInt i \<Rightarrow> True | JBool b \<Rightarrow> True | JStr s \<Rightarrow> True | _ \<Rightarrow> False)"

definition is_list_or_dict :: "json \<Rightarrow> bool" where
  "is_list_or_dict v = (case v of JList l \<Rightarrow> True | JDict d \<Rightarrow> True | _ \<Rightarrow> False)"

definition dict_has :: "(string \<times> json) list \<Rightarrow> string \<Rightarrow> bool" where
  "dict_has d k = (map_of d k \<noteq> None)"

text \<open>
  \<open>_extract_ors_error_detail\<close>, block by block: the entries taken from a dict under
  \<open>"error"\<close>, then the entries taken from the payload, then the whole function.
\<close>

definition detail_from_error_dict ::
  "(string \<times> json) list \<Rightarrow> (string \<times> json) list \<Rightarrow> (string \<times> json) list" where
  "detail_from_error_dict error_payload detail =
     (let detail =
            (case map_of error_payload ''message'' of
               Some (JStr message) \<Rightarrow>
                 if strip message \<noteq> []
                 then AList.update ''message'' (JStr (strip message)) detail
                 else detail
             | _ \<Rightarrow> detail);
          detail =
            (case map_of error_payload ''code'' of
               Some code \<Rightarrow>
                 if is_int_or_str code then AList.update ''ors_code'' code detail else detail
             | None \<Rightarrow> detail);
          detail =
            (case map_of error_payload ''details'' of
               Some details \<Rightarrow>
                 if is_list_or_dict details then AList.update ''details'' details detail
                 else detail
             | None \<Rightarrow> detail)
      in detail)"

definition detail_from_payload ::
  "(string \<times> json) list \<Rightarrow> (string \<times> json) list \<Rightarrow> (string \<times> json) list" where
  "detail_from_payload payload detail =
     (let detail =
            (case map_of payload ''error'' of
               Some (JDict error_payload) \<Rightarrow> detail_from_error_dict error_payload detail
             | Some (JStr error_payload) \<Rightarrow>
                 if strip error_payload \<noteq> []
                 then AList.update ''message'' (JStr (strip error_payload)) detail
                 else detail
             | _ \<Rightarrow> detail);
          detail =
            (case map_of payload ''message'' of
               Some (JStr message) \<Rightarrow>
                 if \<not> dict_has detail ''message''
                 then AList.update ''message'' (JStr (strip message)) detail else detail
             | _ \<Rightarrow> detail);
          detail =
            (case map_of payload ''details'' of
               Some details \<Rightarrow>
                 if \<not> dict_has detail ''details'' \<and> is_list_or_dict details
                 then AList.update ''details'' details detail else detail
             | None \<Rightarrow> detail)
      in detail)"

definition extract_ors_error_detail :: "http_response \<Rightarrow> (string \<times> json) list" where
  "extract_ors_error_detail response =
     (let detail =
            [(''code'', JStr ''ors_error''),
             (''message'', JStr (''OpenRouteService devolvi'' @ [CHR 0xF3] @ '' estado ''
                                  @ str_int (status_code response))),
             (''ors_status'', JInt (status_code response))]
      in case json_body response of
           None \<Rightarrow>
             (let body_preview = take 200 (body_text response)
              in if body_preview \<noteq> [] then AList.update ''raw'' (JStr body_preview) detail
                 else detail)
         | Some (JDict payload) \<Rightarrow> detail_from_payload payload detail
         | Some other \<Rightarrow> detail)"

text \<open>
  \<open>ors_detail.update({"code": code, "message": ors_detail.get("message", default)})\<close>.
\<close>

definition classify :: "(string \<times> json) list \<Rightarrow> string \<Rightarrow> string \<Rightarrow> (string \<times> json) list" where
  "classify ors_detail code default_message =
     (let message = (case map_of ors_detail ''message'' of Some m \<Rightarrow> m | None \<Rightarrow> JStr default_message)
      in AList.update ''message'' message (AList.update ''code'' (JStr code) ors_detail))"

definition backoff_sleep :: "rat \<Rightarrow> nat \<Rightarrow> rat" where
  "backoff_sleep backoff_factor attempt = backoff_factor * 2 ^ (attempt - 1)"

text \<open>
  One pass through the body of \<open>for attempt in range(1, attempts + 1)\<close>, after
  \<open>client.post\<close> ended in \<open>outcome\<close>: the body returns the parsed response, raises, or
  reaches \<open>continue\<close>, with or without a sleep before it.
\<close>

datatype attempt_action = Return json | Raise py_exc | Retry "rat option"

definition on_outcome :: "rat \<Rightarrow> nat \<Rightarrow> nat \<Rightarrow> http_outcome \<Rightarrow> attempt_action" where
  "on_outcome backoff_factor attempts attempt outcome =
     (case outcome of
        TimeoutException \<Rightarrow>
          if attempt < attempts
          then (let sleep_seconds = backoff_sleep backoff_factor attempt
                in Retry (if sleep_seconds > 0 then Some sleep_seconds else None))
          else Raise (HTTPException 504 (DetailDict
                 [(''code'', JStr ''ors_timeout''),
                  (''message'', JStr ''Timeout al conectar con OpenRouteService''),
                  (''attempts'', JInt (int attempt))]))
      | RequestError \<Rightarrow>
          if attempt < attempts
          then (let sleep_seconds = backoff_sleep backoff_factor attempt
                in Retry (if sleep_seconds > 0 then Some sleep_seconds else None))
          else Raise (HTTPException 502 (DetailDict
                 [(''code'', JStr ''ors_connection_error''),
                  (''message'', JStr (''Error de conexi'' @ [CHR 0xF3] @ ''n con OpenRouteService'')),
                  (''attempts'', JInt (int attempt))]))
      | Response response \<Rightarrow>
          if status_code response = 200
          then (case json_body response of
                  Some body \<Rightarrow> Return body
                | None \<Rightarrow>
                    Raise (HTTPException 502 (DetailDict
                      [(''code'', JStr ''ors_invalid_json''),
                       (''message'', JStr (''Respuesta inv'' @ [CHR 0xE1]
                                            @ ''lida de OpenRouteService''))])))
          else let ors_detail = extract_ors_error_detail response in
            if status_code response = 400
            then Raise (HTTPException 400 (DetailDict (classify ors_detail ''ors_invalid_request''
                   (''Par'' @ [CHR 0xE1] @ ''metros inv'' @ [CHR 0xE1]
                     @ ''lidos en petici'' @ [CHR 0xF3] @ ''n a OpenRouteService''))))
            else if status_code response = 401
            then Raise (HTTPException 500 (DetailDict (classify ors_detail ''ors_invalid_key''
                   (''API Key de OpenRouteService inv'' @ [CHR 0xE1] @ ''lida o expirada''))))
            else if status_code response = 403
            then Raise (HTTPException 503 (DetailDict (classify ors_detail ''ors_forbidden''
                   (''OpenRouteService rechaz'' @ [CHR 0xF3] @ '' la petici''
                     @ [CHR 0xF3] @ ''n (forbidden)''))))
            else if status_code response = 429
            then (let ors_detail = classify ors_detail ''ors_rate_limited''
                        (''L'' @ [CHR 0xED] @ ''mite de solicitudes a OpenRouteService excedido'')
                  in if attempt < attempts
                     then (let p = backoff_sleep backoff_factor attempt
                           in Retry (Some (if p = 0 then 1 else p)))
                     else Raise (HTTPException 503 (DetailDict ors_detail)))
            else if status_code response = 404
            then Raise (HTTPException 404 (DetailDict (classify ors_detail ''ors_not_found''
                   (''OpenRouteService no encontr'' @ [CHR 0xF3]
                     @ '' ruta para las coordenadas dadas''))))
            else if (500 \<le> status_code response \<and> status_code response < 600)
                    \<or> status_code response \<in> {502, 503, 504}
            then (let ors_detail = classify ors_detail ''ors_unavailable''
                        (''OpenRouteService no est'' @ [CHR 0xE1] @ '' disponible'')
                  in if attempt < attempts
                     then (let p = backoff_sleep backoff_factor attempt
                           in Retry (Some (if p = 0 then 1 else p)))
                     else Raise (HTTPException 502 (DetailDict ors_detail)))
            else Raise (HTTPException 502 (DetailDict ors_detail)))"

lemma on_outcome_Retry:
  "on_outcome backoff_factor attempts attempt outcome = Retry s \<Longrightarrow> attempt < attempts"
  by (cases outcome)
    (auto simp: on_outcome_def Let_def split: if_splits option.splits)

text \<open>
  The retry loop. The trace records every \<open>client.post\<close> and every \<open>asyncio.sleep\<close>.
  The last attempt always returns or raises, so the loop never falls through.
\<close>

function peticion_loop ::
  "(nat \<Rightarrow> http_outcome) \<Rightarrow> rat \<Rightarrow> nat \<Rightarrow> nat \<Rightarrow> (py_exc + json) \<times> client_event list" where
  "peticion_loop net backoff_factor attempts attempt =
     (case on_outcome backoff_factor attempts attempt (net attempt) of
        Return body \<Rightarrow> (Inr body, [Post attempt])
      | Raise e \<Rightarrow> (Inl e, [Post attempt])
      | Retry sleep_seconds \<Rightarrow>
          (let (r, tr) = peticion_loop net backoff_factor attempts (Suc attempt)
           in (r, Post attempt # (case sleep_seconds of Some s \<Rightarrow> [Sleep s] | None \<Rightarrow> []) @ tr)))"
  by pat_completeness auto
termination
  by (relation "measure (\<lambda>(net, backoff_factor, attempts, attempt). attempts - attempt)")
    (auto dest: on_outcome_Retry)

declare peticion_loop.simps [simp del]

definition as_raw_coords :: "rat list list \<Rightarrow> raw_coords" where
  "as_raw_coords coordenadas = RawCoords (map (\<lambda>pair. RawPair (map RawNum pair)) coordenadas)"

definition hacer_peticion_ors ::
  "settings \<Rightarrow> (nat \<Rightarrow> http_outcome) \<Rightarrow> rat list list \<Rightarrow> string
     \<Rightarrow> (py_exc + json) \<times> client_event list" where
  "hacer_peticion_ors st net coordenadas profile =
     (case validate_coordinates (as_raw_coords coordenadas) ''internal'' of
        Inl e \<Rightarrow> (Inl e, [])
      | Inr normalized_coords \<Rightarrow>
          (let attempts = nat (max 1 (ORS_MAX_RETRIES st + 1));
               backoff_factor = max 0 (ORS_BACKOFF_FACTOR st)
           in peticion_loop net backoff_factor attempts 1))"

fun sleeps_of :: "client_event list \<Rightarrow> rat list" where
  "sleeps_of [] = []"
| "sleeps_of (Sleep s # tr) = s # sleeps_of tr"
| "sleeps_of (Post n # tr) = sleeps_of tr"

fun posts_of :: "client_event list \<Rightarrow> nat list" where
  "posts_of [] = []"
| "posts_of (Sleep s # tr) = posts_of tr"
| "posts_of (Post n # tr) = n # posts_of tr"




section \<open>The response normaliser (\<open>ORSService._procesar_respuesta_ors\<close>)\<close>

text \<open>
  Library functions the normaliser and the key builder call, taken as parameters:
  \<open>polyline.decode\<close> (\<open>None\<close> when it raises), \<open>float(str)\<close> and \<open>int(str)\<close> (\<open>None\<close> for
  \<open>ValueError\<close>) and the hexadecimal SHA-256 digest of a string.
\<close>

record pylib =
  polyline_decode :: "string \<Rightarrow> (rat \<times> rat) list option"
  float_of_str :: "string \<Rightarrow> rat option"
  int_of_str :: "string \<Rightarrow> int option"
  sha256_hex :: "string \<Rightarrow> string"

text \<open>Truthiness, \<open>float(x)\<close>, \<open>int(x)\<close> and \<open>round(x)\<close> (half to even) of Python.\<close>

definition truthy :: "json \<Rightarrow> bool" where
  "truthy v =
     (case v of
        JNull \<Rightarrow> False
      | JBool b \<Rightarrow> b
      | JInt i \<Rightarrow> i \<noteq> 0
      | JNum r \<Rightarrow> r \<noteq> 0
      | JStr s \<Rightarrow> s \<noteq> []
      | JList l \<Rightarrow> l \<noteq> []
      | JDict d \<Rightarrow> d \<noteq> [])"

definition py_float :: "pylib \<Rightarrow> json \<Rightarrow> py_exc + rat" where
  "py_float lib v =
     (case v of
        JInt i \<Rightarrow> Inr (of_int i)
      | JBool b \<Rightarrow> Inr (if b then 1 else 0)
      | JNum r \<Rightarrow> Inr r
      | JStr s \<Rightarrow> (case float_of_str lib s of
                     Some r \<Rightarrow> Inr r
                   | None \<Rightarrow> Inl (ValueError ''could not convert string to float''))
      | _ \<Rightarrow> Inl (TypeError ''float() argument must be a string or a real number''))"

definition trunc_toward_zero :: "rat \<Rightarrow> int" where
  "trunc_toward_zero r = (if 0 \<le> r then \<lfloor>r\<rfloor> else \<lceil>r\<rceil>)"

definition py_int :: "pylib \<Rightarrow> json \<Rightarrow> py_exc + int" where
  "py_int lib v =
     (case v of
        JInt i \<Rightarrow> Inr i
      | JBool b \<Rightarrow> Inr (if b then 1 else 0)
      | JNum r \<Rightarrow> Inr (trunc_toward_zero r)
      | JStr s \<Rightarrow> (case int_of_str lib s of
                     Some i \<Rightarrow> Inr i
                   | None \<Rightarrow> Inl (ValueError ''invalid literal for int() with base 10''))
      | _ \<Rightarrow> Inl (TypeError ''int() argument must be a string, a bytes-like object or a real number''))"

definition py_round :: "rat \<Rightarrow> int" where
  "py_round r =
     (let f = \<lfloor>r\<rfloor>; d = r - of_int f
      in if d < 1 / 2 then f
         else if 1 / 2 < d then f + 1
         else if even f then f else f + 1)"

definition dict_get :: "(string \<times> json) list \<Rightarrow> string \<Rightarrow> json" where
  "dict_get d k = (case map_of d k of Some v \<Rightarrow> v | None \<Rightarrow> JNull)"

text \<open>
  \<open>int(round(float(step.get(k, 0) or 0)))\<close>, with \<open>0\<close> for \<open>TypeError\<close> and
  \<open>ValueError\<close>, then \<open>max(0, ...)\<close>.
\<close>

definition step_amount :: "pylib \<Rightarrow> (string \<times> json) list \<Rightarrow> string \<Rightarrow> int" where
  "step_amount lib step k =
     (let given = (case map_of step k of Some v \<Rightarrow> v | None \<Rightarrow> JInt 0);
          operand = (if truthy given then given else JInt 0);
          amount = (case py_float lib operand of Inr r \<Rightarrow> py_round r | Inl e \<Rightarrow> 0)
      in max 0 amount)"

definition is_number :: "json \<Rightarrow> bool" where
  "is_number v = (case v of JInt i \<Rightarrow> True | JBool b \<Rightarrow> True | JNum r \<Rightarrow> True | _ \<Rightarrow> False)"

definition number_value :: "json \<Rightarrow> rat" where
  "number_value v =
     (case v of JInt i \<Rightarrow> of_int i | JBool b \<Rightarrow> (if b then 1 else 0) | JNum r \<Rightarrow> r | _ \<Rightarrow> 0)"

definition point :: "json \<Rightarrow> json \<Rightarrow> json" where
  "point lat lng = JDict [(''lat'', lat), (''lng'', lng)]"

text \<open>
  \<open>_extract_step_location\<close>. The decoded geometry is a list of \<open>(lat, lng)\<close> pairs, each
  the dict \<open>{"lat": lat, "lng": lng}\<close> of the source.
\<close>

definition extract_step_location ::
  "pylib \<Rightarrow> (string \<times> json) list \<Rightarrow> (json \<times> json) list \<Rightarrow> json" where
  "extract_step_location lib step ruta_coordenadas =
     (let by_way_point =
            (case dict_get step ''way_points'' of
               JList (candidate # others) \<Rightarrow>
                 (let index = (case candidate of
                                 JInt i \<Rightarrow> Some i
                               | JBool b \<Rightarrow> Some (if b then 1 else 0)
                               | _ \<Rightarrow> None)
                  in case index of
                       Some i \<Rightarrow>
                         if 0 \<le> i \<and> i < int (length ruta_coordenadas)
                         then (case ruta_coordenadas ! nat i of
                                 (lat, lng) \<Rightarrow>
                                   if is_number lat \<and> is_number lng
                                   then Some (point (JNum (number_value lat)) (JNum (number_value lng)))
                                   else None)
                         else None
                     | None \<Rightarrow> None)
             | _ \<Rightarrow> None)
      in case by_way_point of
           Some location \<Rightarrow> location
         | None \<Rightarrow>
             (case dict_get step ''coordinate'' of
                JList coordinate \<Rightarrow>
                  if 2 \<le> length coordinate
                  then (case (py_float lib (coordinate ! 0), py_float lib (coordinate ! 1)) of
                          (Inr lng, Inr lat) \<Rightarrow> point (JNum lat) (JNum lng)
                        | _ \<Rightarrow> JNull)
                  else JNull
              | _ \<Rightarrow> JNull))"

text \<open>
  \<open>_parse_steps\<close>: the loop over \<open>enumerate(raw_steps)\<close>; \<open>count\<close> is
  \<open>len(parsed_steps)\<close> before the step.
\<close>

fun parse_steps_loop ::
  "pylib \<Rightarrow> (json \<times> json) list \<Rightarrow> nat \<Rightarrow> nat \<Rightarrow> json list \<Rightarrow> json list" where
  "parse_steps_loop lib ruta_coordenadas idx count [] = []"
| "parse_steps_loop lib ruta_coordenadas idx count (step # rest) =
     (case step of
        JDict d \<Rightarrow>
          (let texto = normalize_step_text (dict_get d ''instruction'') (dict_get d ''name'')
                         (int idx + 1);
               parsed = JDict
                 [(''orden'', JInt (int idx)),
                  (''texto'', JStr texto),
                  (''distance_m'', JInt (step_amount lib d ''distance'')),
                  (''duration_s'', JInt (step_amount lib d ''duration'')),
                  (''location'', extract_step_location lib d ruta_coordenadas)]
           in if Suc count \<ge> MAX_ROUTE_STEPS then [parsed]
              else parsed # parse_steps_loop lib ruta_coordenadas (Suc idx) (Suc count) rest)
      | _ \<Rightarrow> parse_steps_loop lib ruta_coordenadas (Suc idx) count rest)"

definition parse_steps :: "pylib \<Rightarrow> json \<Rightarrow> (json \<times> json) list \<Rightarrow> json list" where
  "parse_steps lib raw_steps ruta_coordenadas =
     (case raw_steps of
        JList steps \<Rightarrow> parse_steps_loop lib ruta_coordenadas 0 0 steps
      | _ \<Rightarrow> [])"

text \<open>\<open>_decodificar_polyline\<close>: any exception of the decoder becomes a 500.\<close>

definition decodificar_polyline :: "pylib \<Rightarrow> string \<Rightarrow> py_exc + (json \<times> json) list" where
  "decodificar_polyline lib encoded_polyline =
     (case polyline_decode lib encoded_polyline of
        Some coordinates \<Rightarrow> Inr (map (\<lambda>(lat, lng). (JNum lat, JNum lng)) coordinates)
      | None \<Rightarrow>
          Inl (HTTPException 500
                 (DetailStr (''Error decodificando geometr'' @ [CHR 0xED] @ ''a de ruta''))))"

text \<open>
  The loop over a GeoJSON \<open>coordinates\<close> value. Iterating a list gives its elements, a
  string its characters, a dict its keys; \<open>len\<close> and indexing follow the element's type.
  The text of a caught \<open>TypeError\<close> or \<open>KeyError\<close> is the interpreter's; the model
  carries a representative text.
\<close>

fun geojson_points :: "json list \<Rightarrow> py_exc + (json \<times> json) list" where
  "geojson_points [] = Inr []"
| "geojson_points (coord # rest) =
     (let here =
            (case coord of
               JList l \<Rightarrow> Inr (if 2 \<le> length l then [(l ! 1, l ! 0)] else [])
             | JStr s \<Rightarrow> Inr (if 2 \<le> length s then [(JStr [s ! 1], JStr [s ! 0])] else [])
             | JDict d \<Rightarrow> if 2 \<le> length d then Inl (KeyError ''0'') else Inr []
             | _ \<Rightarrow> Inl (TypeError ''object has no len()''))
      in case here of
           Inl e \<Rightarrow> Inl e
         | Inr pts \<Rightarrow> (case geojson_points rest of Inl e \<Rightarrow> Inl e | Inr others \<Rightarrow> Inr (pts @ others)))"

definition iterate :: "json \<Rightarrow> py_exc + json list" where
  "iterate v =
     (case v of
        JList l \<Rightarrow> Inr l
      | JStr s \<Rightarrow> Inr (map (\<lambda>c. JStr [c]) s)
      | JDict d \<Rightarrow> Inr (map (\<lambda>(k, x). JStr k) d)
      | _ \<Rightarrow> Inl (TypeError ''object is not iterable''))"

definition http_500 :: "string \<Rightarrow> py_exc" where
  "http_500 message = HTTPException 500 (DetailStr message)"

text \<open>
  The body of the \<open>try\<close> block, in the order of the source: \<open>routes[0]\<close>, the test
  \<open>"geometry" not in route\<close>, the geometry, the summary, the steps.
\<close>

definition first_route :: "json \<Rightarrow> py_exc + json" where
  "first_route routes =
     (case routes of
        JList l \<Rightarrow> Inr (hd l)
      | JStr s \<Rightarrow> Inr (JStr [hd s])
      | JDict d \<Rightarrow> Inl (KeyError ''0'')
      | _ \<Rightarrow> Inl (TypeError ''object has no len()''))"

definition has_geometry :: "json \<Rightarrow> py_exc + bool" where
  "has_geometry route =
     (case route of
        JDict rd \<Rightarrow> Inr (dict_has rd ''geometry'')
      | JList l \<Rightarrow> Inr (JStr ''geometry'' \<in> set l)
      | JStr s \<Rightarrow> Inr (str_in ''geometry'' s)
      | _ \<Rightarrow> Inl (TypeError ''argument is not iterable''))"

definition unsupported_geometry :: py_exc where
  "unsupported_geometry =
     http_500 (''Formato de geometr'' @ [CHR 0xED] @ ''a no soportado'')"

definition decode_geometry :: "pylib \<Rightarrow> json \<Rightarrow> py_exc + (json \<times> json) list" where
  "decode_geometry lib geometry =
     (case geometry of
        JStr encoded \<Rightarrow> decodificar_polyline lib encoded
      | JDict gd \<Rightarrow>
          (case map_of gd ''coordinates'' of
             Some coordinates \<Rightarrow>
               (case iterate coordinates of
                  Inl e \<Rightarrow> Inl e
                | Inr coords \<Rightarrow> geojson_points coords)
           | None \<Rightarrow> Inl unsupported_geometry)
      | _ \<Rightarrow> Inl unsupported_geometry)"

definition summary_amount :: "pylib \<Rightarrow> (string \<times> json) list \<Rightarrow> string \<Rightarrow> py_exc + int" where
  "summary_amount lib summary k =
     py_int lib (case map_of summary k of Some v \<Rightarrow> v | None \<Rightarrow> JInt 0)"

definition route_steps :: "pylib \<Rightarrow> (string \<times> json) list \<Rightarrow> (json \<times> json) list \<Rightarrow> json list" where
  "route_steps lib rd ruta_coordenadas =
     (case dict_get rd ''segments'' of
        JList (segment # others) \<Rightarrow>
          parse_steps lib (case segment of JDict sd \<Rightarrow> dict_get sd ''steps'' | _ \<Rightarrow> JNull)
            ruta_coordenadas
      | _ \<Rightarrow> [])"

definition procesar_route :: "pylib \<Rightarrow> (string \<times> json) list \<Rightarrow> py_exc + json" where
  "procesar_route lib rd =
     (case decode_geometry lib (dict_get rd ''geometry'') of
        Inl e \<Rightarrow> Inl e
      | Inr ruta_coordenadas \<Rightarrow>
          (case map_of rd ''summary'' of
             None \<Rightarrow> Inl (http_500 ''Resumen de ruta no disponible'')
           | Some (JDict summary) \<Rightarrow>
               (case summary_amount lib summary ''distance'' of
                  Inl e \<Rightarrow> Inl e
                | Inr distancia_m \<Rightarrow>
                    (case summary_amount lib summary ''duration'' of
                       Inl e \<Rightarrow> Inl e
                     | Inr duracion_s \<Rightarrow>
                         (let steps = route_steps lib rd ruta_coordenadas
                          in Inr (JDict
                               [(''ruta'', JList (map (\<lambda>(lat, lng). point lat lng) ruta_coordenadas)),
                                (''distancia_m'', JInt distancia_m),
                                (''duracion_s'', JInt duracion_s),
                                (''instrucciones'', JList steps),
                                (''steps_count'', JInt (int (length steps))),
                                (''current_step_index'', JInt 0)]))))
           | Some other \<Rightarrow> Inl (AttributeError ''object has no attribute get'')))"

definition procesar_body :: "pylib \<Rightarrow> json \<Rightarrow> py_exc + json" where
  "procesar_body lib ors_response =
     (case ors_response of
        JDict resp \<Rightarrow>
          (case map_of resp ''routes'' of
             None \<Rightarrow> Inl (http_500 (''Estructura de respuesta inv'' @ [CHR 0xE1]
                                      @ ''lida de OpenRouteService''))
           | Some routes \<Rightarrow>
               if \<not> truthy routes
               then Inl (HTTPException 404
                           (DetailStr ''No se pudo calcular ruta entre las ubicaciones''))
               else
                 (case first_route routes of
                    Inl e \<Rightarrow> Inl e
                  | Inr route \<Rightarrow>
                      (case has_geometry route of
                         Inl e \<Rightarrow> Inl e
                       | Inr False \<Rightarrow>
                           Inl (http_500 (''Geometr'' @ [CHR 0xED]
                                           @ ''a de ruta no disponible''))
                       | Inr True \<Rightarrow>
                           (case route of
                              JDict rd \<Rightarrow> procesar_route lib rd
                            | _ \<Rightarrow> Inl (TypeError ''indices must be integers'')))))
      | _ \<Rightarrow> Inl (http_500 ''Formato de respuesta inesperado de OpenRouteService''))"

text \<open>
  \<open>except (KeyError, IndexError, TypeError, ValueError)\<close>: these become a 500 whose
  detail is a string; every other exception leaves the function as it is.
\<close>

definition procesar_respuesta_ors :: "pylib \<Rightarrow> json \<Rightarrow> py_exc + json" where
  "procesar_respuesta_ors lib ors_response =
     (case procesar_body lib ors_response of
        Inr resultado \<Rightarrow> Inr resultado
      | Inl e \<Rightarrow>
          (let wrap = (\<lambda>m. Inl (http_500 (''Error procesando respuesta de OpenRouteService: '' @ m)))
           in case e of
                KeyError m \<Rightarrow> wrap m
              | IndexError m \<Rightarrow> wrap m
              | TypeError m \<Rightarrow> wrap m
              | ValueError m \<Rightarrow> wrap m
              | _ \<Rightarrow> Inl e))"







section \<open>The graph engine (\<open>rutas.py\<close>)\<close>

text \<open>
  The graph of \<open>construir_grafo\<close>: a dict from a location id to the list of its outgoing
  \<open>(neighbour, weight)\<close> pairs, as an association list. Weights are the \<open>Float\<close> column
  \<open>peso\<close>, modelled by rationals; \<open>float("inf")\<close> is a value of its own.
\<close>

type_synonym graph = "(int \<times> (int \<times> rat) list) list"

datatype dist = Finite rat | Infinity

definition less_dist :: "rat \<Rightarrow> dist \<Rightarrow> bool" where
  "less_dist d x = (case x of Infinity \<Rightarrow> True | Finite y \<Rightarrow> d < y)"

type_synonym dstate = "(int \<rightharpoonup> dist) \<times> (int \<rightharpoonup> int) \<times> (rat \<times> int) list"

text \<open>
  The loop \<open>for vecino, peso in grafo[actual_nodo]\<close>. \<open>distancias[vecino]\<close> raises
  \<open>KeyError\<close> for a neighbour that is not a key of the graph. \<open>heapq.heappush\<close> adds an
  entry to the queue; the queue is kept as a list and \<open>heappop\<close> takes its least entry.
\<close>

fun relax :: "int \<Rightarrow> rat \<Rightarrow> (int \<times> rat) list \<Rightarrow> dstate \<Rightarrow> py_exc + dstate" where
  "relax actual_nodo actual_dist [] st = Inr st"
| "relax actual_nodo actual_dist ((vecino, peso) # rest) (distancias, anterior, cola) =
     (case distancias vecino of
        None \<Rightarrow> Inl (KeyError (str_int vecino))
      | Some known \<Rightarrow>
          (let distancia = actual_dist + peso
           in if less_dist distancia known
              then relax actual_nodo actual_dist rest
                     (distancias(vecino \<mapsto> Finite distancia), anterior(vecino \<mapsto> actual_nodo),
                      cola @ [(distancia, vecino)])
              else relax actual_nodo actual_dist rest (distancias, anterior, cola)))"

text \<open>
  One pass of \<open>while cola\<close>: the loop ends (queue empty, destination popped, or
  \<open>KeyError\<close>) with \<open>Inl\<close>, or goes on with the next state.
\<close>

definition dijkstra_step :: "graph \<Rightarrow> int \<Rightarrow> dstate \<Rightarrow> (py_exc + (int \<rightharpoonup> int)) + dstate" where
  "dijkstra_step grafo destino st =
     (case st of (distancias, anterior, cola) \<Rightarrow>
        if cola = [] then Inl (Inr anterior)
        else (case min_list cola of (actual_dist, actual_nodo) \<Rightarrow>
                if actual_nodo = destino then Inl (Inr anterior)
                else (case map_of grafo actual_nodo of
                        None \<Rightarrow> Inl (Inl (KeyError (str_int actual_nodo)))
                      | Some vecinos \<Rightarrow>
                          (case relax actual_nodo actual_dist vecinos
                                  (distancias, anterior, remove1 (actual_dist, actual_nodo) cola) of
                             Inl e \<Rightarrow> Inl (Inl e)
                           | Inr st' \<Rightarrow> Inr st'))))"

partial_function (option) dijkstra_loop ::
  "graph \<Rightarrow> int \<Rightarrow> dstate \<Rightarrow> (py_exc + (int \<rightharpoonup> int)) option" where
  "dijkstra_loop grafo destino st =
     (case dijkstra_step grafo destino st of
        Inl result \<Rightarrow> Some result
      | Inr st' \<Rightarrow> dijkstra_loop grafo destino st')"

declare dijkstra_loop.simps [code]

text \<open>
  The loop \<open>while actual in anterior\<close> that rebuilds the path from the destination.
\<close>

partial_function (option) walk_back ::
  "(int \<rightharpoonup> int) \<Rightarrow> int \<Rightarrow> int list \<Rightarrow> (int \<times> int list) option" where
  "walk_back anterior actual ruta =
     (case anterior actual of
        None \<Rightarrow> Some (actual, ruta)
      | Some previous \<Rightarrow> walk_back anterior previous (actual # ruta))"

declare walk_back.simps [code]

text \<open>\<open>dijkstra\<close>: \<open>None\<close> when one of its loops does not end.\<close>

definition dijkstra :: "graph \<Rightarrow> int \<Rightarrow> int \<Rightarrow> (py_exc + int list) option" where
  "dijkstra grafo inicio destino =
     (let distancias = (\<lambda>nodo. if nodo = inicio then Some (Finite 0)
                               else map_option (\<lambda>edges. Infinity) (map_of grafo nodo))
      in case dijkstra_loop grafo destino (distancias, Map.empty, [(0, inicio)]) of
           None \<Rightarrow> None
         | Some (Inl e) \<Rightarrow> Some (Inl e)
         | Some (Inr anterior) \<Rightarrow>
             (case walk_back anterior destino [] of
                None \<Rightarrow> None
              | Some (actual, ruta) \<Rightarrow>
                  Some (Inr (if actual = inicio then inicio # ruta else []))))"

text \<open>
  The edges of a graph, the weight of a route along them (\<open>None\<close> when the list is not a
  route of the graph), and the graphs the data model admits: every neighbour is a location
  of the graph and no weight is negative.
\<close>

definition edges :: "graph \<Rightarrow> (int \<times> int) set" where
  "edges grafo = {(u, v). \<exists>vecinos peso. map_of grafo u = Some vecinos \<and> (v, peso) \<in> set vecinos}"

fun path_weight :: "graph \<Rightarrow> int list \<Rightarrow> rat option" where
  "path_weight grafo [] = None"
| "path_weight grafo [u] = Some 0"
| "path_weight grafo (u # v # rest) =
     (case map_of grafo u of
        None \<Rightarrow> None
      | Some vecinos \<Rightarrow>
          (case map_of vecinos v of
             None \<Rightarrow> None
           | Some peso \<Rightarrow> map_option (\<lambda>total. peso + total) (path_weight grafo (v # rest))))"

definition wf_graph :: "graph \<Rightarrow> bool" where
  "wf_graph grafo =
     (\<forall>(u, vecinos) \<in> set grafo. \<forall>(v, peso) \<in> set vecinos. v \<in> fst ` set grafo \<and> 0 \<le> peso)"

definition example_graph :: graph where
  "example_graph = [(1, [(2, 5), (3, 20)]), (2, [(3, 5)]), (3, [])]"

text \<open>
  The invariant of the main loop. \<open>done\<close> is the set of nodes popped so far: for each
  of them no outgoing edge can improve a distance from any entry still in the queue.
  Every node in the queue or with a predecessor is reachable from the start.
\<close>

definition dijkstra_inv ::
  "graph \<Rightarrow> int \<Rightarrow> int set \<Rightarrow> (int \<rightharpoonup> dist) \<Rightarrow> (int \<rightharpoonup> int) \<Rightarrow> (rat \<times> int) list \<Rightarrow> bool" where
  "dijkstra_inv grafo inicio popped distancias anterior cola =
     (popped \<subseteq> fst ` set grafo
      \<and> (\<forall>n. n \<in> fst ` set grafo \<longrightarrow> distancias n \<noteq> None)
      \<and> (\<forall>d n. (d, n) \<in> set cola \<longrightarrow> n \<in> fst ` set grafo \<and> (inicio, n) \<in> (edges grafo)\<^sup>*)
      \<and> (\<forall>v u. anterior v = Some u \<longrightarrow> (inicio, v) \<in> (edges grafo)\<^sup>*)
      \<and> (\<forall>u vecinos v peso d n.
            u \<in> popped \<longrightarrow> map_of grafo u = Some vecinos \<longrightarrow> (v, peso) \<in> set vecinos \<longrightarrow>
            (d, n) \<in> set cola \<longrightarrow>
            (\<exists>known. distancias v = Some known \<and> \<not> less_dist (d + peso) known)))"

section \<open>The cache key (\<open>_build_cache_key\<close>)\<close>

text \<open>
  \<open>f"{x:.6f}"\<close>: the sign, the integer part and six decimals of the value rounded half
  to even at the sixth decimal. A negative value that rounds to zero keeps its sign.
\<close>

definition pad6 :: "nat \<Rightarrow> string" where
  "pad6 n = replicate (6 - length (str_nat n)) CHR ''0'' @ str_nat n"

definition format_6f :: "rat \<Rightarrow> string" where
  "format_6f x =
     (let n = nat (py_round (\<bar>x\<bar> * 1000000))
      in (if x < 0 then ''-'' else []) @ str_nat (n div 1000000) @ ''.'' @ pad6 (n mod 1000000))"

definition format_coord_pair :: "rat \<Rightarrow> rat \<Rightarrow> string" where
  "format_coord_pair lng lat = format_6f lng @ '','' @ format_6f lat"

definition build_cache_key :: "pylib \<Rightarrow> string \<Rightarrow> rat list list \<Rightarrow> string \<Rightarrow> py_exc + string" where
  "build_cache_key lib profile coordenadas variant =
     (if coordenadas = [] \<or> length (hd coordenadas) < 2 \<or> length (last coordenadas) < 2
      then Inl (ValueError (''Coordenadas inv'' @ [CHR 0xE1] @ ''lidas para cache''))
      else (let origen = hd coordenadas;
                destino = last coordenadas;
                raw_key = variant @ ''|'' @ profile @ ''|''
                          @ format_coord_pair (origen ! 0) (origen ! 1) @ ''|''
                          @ format_coord_pair (destino ! 0) (destino ! 1)
            in Inr (''route:'' @ sha256_hex lib raw_key)))"

section \<open>The orchestrator (\<open>obtener_ruta_ors_por_coordenadas\<close>)\<close>

text \<open>
  The cache is reached through the methods of \<open>CacheService\<close> only, so the orchestrator is
  modelled over any implementation of them: \<open>'w\<close> is the state the calls act on and \<open>'p\<close>
  what a payload is. Every method may raise; \<open>acquire_lock\<close> may also park its caller.
\<close>

record ('w, 'p) cache_service =
  cache_get :: "string \<Rightarrow> 'w \<Rightarrow> (py_exc + 'p option) \<times> 'w"
  cache_set :: "string \<Rightarrow> 'p \<Rightarrow> int \<Rightarrow> 'w \<Rightarrow> (py_exc + unit) \<times> 'w"
  cache_acquire_lock :: "string \<Rightarrow> int \<Rightarrow> 'w \<Rightarrow> ((py_exc + string option) \<times> 'w) awaited"
  cache_release_lock :: "string \<Rightarrow> string \<Rightarrow> 'w \<Rightarrow> (py_exc + unit) \<times> 'w"
  cache_wait_for_value :: "string \<Rightarrow> 'w \<Rightarrow> (py_exc + 'p option) \<times> 'w"

text \<open>
  The two other things the orchestrator calls: the upstream resolution (lines 782 to 802:
  \<open>ORSService()\<close>, \<open>_hacer_peticion_ors\<close>, \<open>_procesar_respuesta_ors\<close> and the three
  fields added to the result) and \<open>copy.deepcopy\<close>.
\<close>

record ('w, 'p) runtime =
  resolve_upstream :: "rat list list \<Rightarrow> string \<Rightarrow> 'w \<Rightarrow> (py_exc + 'p) \<times> 'w"
  deep_copy :: "'p \<Rightarrow> 'w \<Rightarrow> 'p \<times> 'w"

text \<open>The calls a resolution makes, in order.\<close>

datatype 'p event =
    Get string
  | SetEntry string 'p int
  | Acquire string int
  | Release string string
  | Wait string
  | Upstream

text \<open>
  Lines 755 to 764: the first read. Any exception (of the key builder or of \<open>get\<close>) is
  logged and leaves \<open>cache_key = None\<close>. The result is the hit if any, the key if it
  survived, the state and the calls made.
\<close>

definition cache_lookup ::
  "pylib \<Rightarrow> ('w, 'p) cache_service \<Rightarrow> string \<Rightarrow> rat list list \<Rightarrow> 'w
     \<Rightarrow> 'p option \<times> string option \<times> 'w \<times> 'p event list" where
  "cache_lookup lib cache normalized_profile sanitized_coords w =
     (case build_cache_key lib normalized_profile sanitized_coords ''coords'' of
        Inl e \<Rightarrow> (None, None, w, [])
      | Inr cache_key \<Rightarrow>
          (case cache_get cache cache_key w of
             (Inl e, w') \<Rightarrow> (None, None, w', [Get cache_key])
           | (Inr None, w') \<Rightarrow> (None, Some cache_key, w', [Get cache_key])
           | (Inr (Some cached_payload), w') \<Rightarrow>
               (Some cached_payload, Some cache_key, w', [Get cache_key])))"

text \<open>
  Lines 769 to 780: the lock. With no token the caller polls for the value another request
  may store. Any exception is logged and leaves \<open>lock_token = None\<close>.
\<close>

definition lock_or_wait ::
  "settings \<Rightarrow> ('w, 'p) cache_service \<Rightarrow> string \<Rightarrow> 'w
     \<Rightarrow> ('p option \<times> string option \<times> 'w \<times> 'p event list) awaited" where
  "lock_or_wait st cache cache_key w =
     (let timeout = CACHE_LOCK_TIMEOUT_SECONDS st
      in case cache_acquire_lock cache cache_key timeout w of
           Suspended \<Rightarrow> Suspended
         | Returned (Inl e, w') \<Rightarrow> Returned (None, None, w', [Acquire cache_key timeout])
         | Returned (Inr (Some lock_token), w') \<Rightarrow>
             Returned (None, Some lock_token, w', [Acquire cache_key timeout])
         | Returned (Inr None, w') \<Rightarrow>
             (case cache_wait_for_value cache cache_key w' of
                (Inl e, w'') \<Rightarrow>
                  Returned (None, None, w'', [Acquire cache_key timeout, Wait cache_key])
              | (Inr None, w'') \<Rightarrow>
                  Returned (None, None, w'', [Acquire cache_key timeout, Wait cache_key])
              | (Inr (Some cached_payload), w'') \<Rightarrow>
                  Returned (Some cached_payload, None, w'',
                            [Acquire cache_key timeout, Wait cache_key])))"

text \<open>
  Lines 804 to 815: the write, whose exception is logged, and in its \<open>finally\<close> the
  release of the lock, whose exception is logged too.
\<close>

definition store_and_release ::
  "('w, 'p) cache_service \<Rightarrow> string \<Rightarrow> 'p \<Rightarrow> int \<Rightarrow> string option \<Rightarrow> 'w \<Rightarrow> 'w \<times> 'p event list" where
  "store_and_release cache cache_key resultado ttl_seconds lock_token w =
     (let w1 = snd (cache_set cache cache_key resultado ttl_seconds w)
      in case lock_token of
           None \<Rightarrow> (w1, [SetEntry cache_key resultado ttl_seconds])
         | Some token \<Rightarrow>
             (snd (cache_release_lock cache cache_key token w1),
              [SetEntry cache_key resultado ttl_seconds, Release cache_key token]))"

text \<open>
  Lines 782 to 824, entered with the key and the token the earlier lines left. An error
  of the upstream resolution leaves the function at once. The branch \<open>elif\<close> of line 816
  needs a key with \<open>ttl_seconds <= 0\<close>, which no path gives; it is kept for the diff.
\<close>

definition resolve_and_store ::
  "('w, 'p) runtime \<Rightarrow> ('w, 'p) cache_service option \<Rightarrow> int \<Rightarrow> string option \<Rightarrow> string option
     \<Rightarrow> rat list list \<Rightarrow> string \<Rightarrow> 'w \<Rightarrow> (py_exc + 'p) \<times> 'w \<times> 'p event list" where
  "resolve_and_store rt cache ttl_seconds cache_key lock_token sanitized_coords normalized_profile w =
     (case resolve_upstream rt sanitized_coords normalized_profile w of
        (Inl e, w1) \<Rightarrow> (Inl e, w1, [Upstream])
      | (Inr resultado, w1) \<Rightarrow>
          (let (w2, calls) =
                 (case (cache, cache_key) of
                    (Some c, Some k) \<Rightarrow>
                      if 0 < ttl_seconds then store_and_release c k resultado ttl_seconds lock_token w1
                      else (case lock_token of
                              Some token \<Rightarrow> (snd (cache_release_lock c k token w1), [Release k token])
                            | None \<Rightarrow> (w1, []))
                  | _ \<Rightarrow> (w1, []));
               (copied, w3) = deep_copy rt resultado w2
           in (Inr copied, w3, Upstream # calls)))"

text \<open>
  The whole function. \<open>cache\<close> is the cache in use: the argument \<open>cache_service\<close>, or what
  \<open>CacheServiceFactory.get_cache()\<close> gave, \<open>None\<close> when that raised.
\<close>

definition obtener_ruta_ors_por_coordenadas ::
  "settings \<Rightarrow> pylib \<Rightarrow> ('w, 'p) runtime \<Rightarrow> ('w, 'p) cache_service option \<Rightarrow> raw_coords
     \<Rightarrow> string option \<Rightarrow> int option \<Rightarrow> string list option \<Rightarrow> 'w
     \<Rightarrow> ((py_exc + 'p) \<times> 'w \<times> 'p event list) awaited" where
  "obtener_ruta_ors_por_coordenadas st lib rt cache coordenadas profile cache_ttl allowed_profiles w =
     (case validate_coordinates coordenadas ''payload'' of
        Inl e \<Rightarrow> Returned (Inl e, w, [])
      | Inr sanitized_coords \<Rightarrow>
          (let ttl_seconds = resolve_cache_ttl st cache_ttl
           in case normalize_profile st profile allowed_profiles of
                Inl e \<Rightarrow> Returned (Inl e, w, [])
              | Inr normalized_profile \<Rightarrow>
                  (case cache of
                     None \<Rightarrow>
                       Returned (resolve_and_store rt None ttl_seconds None None
                                   sanitized_coords normalized_profile w)
                   | Some c \<Rightarrow>
                       if \<not> 0 < ttl_seconds
                       then Returned (resolve_and_store rt cache ttl_seconds None None
                                        sanitized_coords normalized_profile w)
                       else
                         (case cache_lookup lib c normalized_profile sanitized_coords w of
                            (Some cached_payload, key, w1, calls1) \<Rightarrow>
                              (let (copied, w2) = deep_copy rt cached_payload w1
                               in Returned (Inr copied, w2, calls1))
                          | (None, key, w1, calls1) \<Rightarrow>
                              (case (case key of
                                       Some k \<Rightarrow> Inr k
                                     | None \<Rightarrow> build_cache_key lib normalized_profile
                                                 sanitized_coords ''coords'') of
                                 Inl e \<Rightarrow> Returned (Inl e, w1, calls1)
                               | Inr cache_key \<Rightarrow>
                                   (case lock_or_wait st c cache_key w1 of
                                      Suspended \<Rightarrow> Suspended
                                    | Returned (Some cached_payload, token, w2, calls2) \<Rightarrow>
                                        (let (copied, w3) = deep_copy rt cached_payload w2
                                         in Returned (Inr copied, w3, calls1 @ calls2))
                                    | Returned (None, lock_token, w2, calls2) \<Rightarrow>
                                        (case resolve_and_store rt cache ttl_seconds (Some cache_key)
                                                lock_token sanitized_coords normalized_profile w2 of
                                           (r, w3, calls3) \<Rightarrow>
                                             Returned (r, w3, calls1 @ calls2 @ calls3))))))))"

text \<open>
  Lines 782 to 802 for payloads that are JSON values: \<open>ORSService()\<close> raises when the
  key or the base URL is not set, then the request, the normaliser and the three fields.
\<close>

definition ors_pipeline ::
  "settings \<Rightarrow> pylib \<Rightarrow> (nat \<Rightarrow> http_outcome) \<Rightarrow> rat list list \<Rightarrow> string \<Rightarrow> py_exc + json" where
  "ors_pipeline st lib net sanitized_coords normalized_profile =
     (if ORS_API_KEY st = []
      then Inl (HTTPException 500 (DetailStr
             (''ORS_API_KEY no est'' @ [CHR 0xE1] @ '' configurada en las variables de entorno'')))
      else if ORS_BASE_URL st = []
      then Inl (HTTPException 500 (DetailStr
             (''ORS_BASE_URL no est'' @ [CHR 0xE1] @ '' configurada en las variables de entorno'')))
      else case fst (hacer_peticion_ors st net sanitized_coords normalized_profile) of
             Inl e \<Rightarrow> Inl e
           | Inr ors_response \<Rightarrow>
               (case procesar_respuesta_ors lib ors_response of
                  Inl e \<Rightarrow> Inl e
                | Inr (JDict resultado) \<Rightarrow>
                    Inr (JDict
                      (AList.update ''perfil'' (JStr normalized_profile)
                        (AList.update ''destino''
                           (JDict [(''lat'', JNum (last sanitized_coords ! 1)),
                                   (''lng'', JNum (last sanitized_coords ! 0))])
                           (AList.update ''origen''
                              (JDict [(''lat'', JNum (hd sanitized_coords ! 1)),
                                      (''lng'', JNum (hd sanitized_coords ! 0))])
                              resultado))))
                | Inr other \<Rightarrow> Inl (TypeError ''object does not support item assignment'')))"

text \<open>
  The runtime over immutable JSON payloads (a copy of a value is the value), and the two
  backends as cache services at a fixed clock reading. \<open>wait_for_value\<close> is the method of
  the base class with its defaults (10 attempts).
\<close>

definition json_runtime :: "settings \<Rightarrow> pylib \<Rightarrow> (nat \<Rightarrow> http_outcome) \<Rightarrow> ('w, json) runtime" where
  "json_runtime st lib net =
     \<lparr>resolve_upstream = (\<lambda>coords profile w. (ors_pipeline st lib net coords profile, w)),
      deep_copy = (\<lambda>payload w. (payload, w))\<rparr>"

definition sqlite_service :: "int \<Rightarrow> ('p sqlite_cache, 'p) cache_service" where
  "sqlite_service now =
     \<lparr>cache_get = SQLiteCache_get now,
      cache_set = SQLiteCache_set now,
      cache_acquire_lock = SQLiteCache_acquire_lock,
      cache_release_lock = SQLiteCache_release_lock,
      cache_wait_for_value =
        (\<lambda>key. CacheService_wait_for_value (SQLiteCache_get now) (\<lambda>w. w) key 10)\<rparr>"

definition redis_service :: "int \<Rightarrow> string \<Rightarrow> ('p redis_cache, 'p) cache_service" where
  "redis_service now token =
     \<lparr>cache_get = RedisCache_get now,
      cache_set = RedisCache_set now,
      cache_acquire_lock = RedisCache_acquire_lock now token,
      cache_release_lock = RedisCache_release_lock now,
      cache_wait_for_value =
        (\<lambda>key. CacheService_wait_for_value (RedisCache_get now) (\<lambda>w. w) key 10)\<rparr>"

definition always_404 :: "nat \<Rightarrow> http_outcome" where
  "always_404 n = Response \<lparr>status_code = 404, json_body = None, body_text = []\<rparr>"

definition empty_sqlite :: "json sqlite_cache" where
  "empty_sqlite = \<lparr>conn_open = True, routes_cache = Map.empty, lock_table = Map.empty\<rparr>"

definition example_coords :: raw_coords where
  "example_coords =
     RawCoords [RawPair [RawNum (-110), RawNum 29], RawPair [RawNum (-111), RawNum 30]]"

definition example_key :: string where
  "example_key = ''route:coords|foot-walking|-110.000000,29.000000|-111.000000,30.000000''"

chapter \<open>Properties\<close>

section \<open>The local lock\<close>

lemma Lock_release_held: "locked l \<Longrightarrow> Lock_release l = Inr (l\<lparr>locked := False\<rparr>)"
  by (simp add: Lock_release_def)

text \<open>
  C10. \<open>SQLiteCache.release_lock(key, token)\<close> never raises. When the lock of the key
  exists and is held it is released, whatever token is passed; when there is no lock for
  the key, or the lock is free, the cache is left as it was.
\<close>

theorem sqlite_release_lock_ignores_token:
  "(lock_table c key = Some l \<and> locked l \<longrightarrow>
      SQLiteCache_release_lock key token c
        = (Inr (), c\<lparr>lock_table := (lock_table c)(key \<mapsto> l\<lparr>locked := False\<rparr>)\<rparr>))
   \<and> (lock_table c key = None \<or> (lock_table c key = Some l \<and> \<not> locked l) \<longrightarrow>
      SQLiteCache_release_lock key token c = (Inr (), c))
   \<and> SQLiteCache_release_lock key token c = SQLiteCache_release_lock key token' c"
  by (auto simp: SQLiteCache_release_lock_def Lock_release_def split: option.splits)

theorem sqlite_release_lock_ignores_token_witness:
  "SQLiteCache_release_lock ''route:ab'' ''some-other-token''
     \<lparr>conn_open = True, routes_cache = (Map.empty :: string \<rightharpoonup> (json \<times> int)),
      lock_table = [''route:ab'' \<mapsto> \<lparr>locked = True\<rparr>]\<rparr>
   = (Inr (), \<lparr>conn_open = True, routes_cache = Map.empty,
               lock_table = [''route:ab'' \<mapsto> \<lparr>locked = False\<rparr>]\<rparr>)
   \<and> SQLiteCache_release_lock ''route:ab'' ''t''
     \<lparr>conn_open = True, routes_cache = (Map.empty :: string \<rightharpoonup> (json \<times> int)),
      lock_table = Map.empty\<rparr>
   = (Inr (), \<lparr>conn_open = True, routes_cache = Map.empty, lock_table = Map.empty\<rparr>)"
  using sqlite_release_lock_ignores_token
    [of "\<lparr>conn_open = True, routes_cache = (Map.empty :: string \<rightharpoonup> (json \<times> int)),
          lock_table = [''route:ab'' \<mapsto> \<lparr>locked = True\<rparr>]\<rparr>"
        "''route:ab''" "\<lparr>locked = True\<rparr>" "''some-other-token''"]
    sqlite_release_lock_ignores_token
    [of "\<lparr>conn_open = True, routes_cache = (Map.empty :: string \<rightharpoonup> (json \<times> int)),
          lock_table = Map.empty\<rparr>"
        "''route:ab''" "\<lparr>locked = True\<rparr>" "''t''"]
  by simp

section \<open>\<open>acquire_lock\<close> of the two backends\<close>

lemma redis_acquire_lock_free:
  "client_ready c \<Longrightarrow> 0 < ttl \<Longrightarrow> redis_lookup now c (LOCK_KEY_PREFIX @ key) = None \<Longrightarrow>
   RedisCache_acquire_lock now token key ttl c
     = Returned (Inr (Some token),
         c\<lparr>kv := (kv c)(LOCK_KEY_PREFIX @ key \<mapsto> (RToken token, now + ttl))\<rparr>)"
  by (simp add: RedisCache_acquire_lock_def)

lemma redis_acquire_lock_held:
  "client_ready c \<Longrightarrow> 0 < ttl \<Longrightarrow> redis_lookup now c (LOCK_KEY_PREFIX @ key) = Some v \<Longrightarrow>
   RedisCache_acquire_lock now token key ttl c = Returned (Inr None, c)"
  by (simp add: RedisCache_acquire_lock_def)

lemma sqlite_acquire_lock_free:
  "lock_table c key = None \<or> lock_table c key = Some \<lparr>locked = False\<rparr> \<Longrightarrow>
   SQLiteCache_acquire_lock key ttl c
     = Returned (Inr (Some key), c\<lparr>lock_table := (lock_table c)(key \<mapsto> \<lparr>locked = True\<rparr>)\<rparr>)"
  by (auto simp: SQLiteCache_acquire_lock_def Lock_acquire_def new_Lock_def)

lemma sqlite_acquire_lock_held:
  "lock_table c key = Some l \<Longrightarrow> locked l \<Longrightarrow> SQLiteCache_acquire_lock key ttl c = Suspended"
  by (simp add: SQLiteCache_acquire_lock_def Lock_acquire_def)

lemma sqlite_acquire_lock_never_absent:
  "SQLiteCache_acquire_lock key ttl c \<noteq> Returned (Inr None, c')"
  by (auto simp: SQLiteCache_acquire_lock_def Lock_acquire_def split: option.splits)

text \<open>
  C2. On a key whose lock is held, the Redis backend returns no token at once, but the
  SQLite backend does not return: its caller is parked on the \<open>asyncio.Lock\<close> until the
  holder releases it. The branch \<open>else None\<close> of \<open>SQLiteCache.acquire_lock\<close> is dead.
\<close>

theorem sqlite_acquire_lock_waits_when_held:
  "SQLiteCache_acquire_lock ''route:ab'' 30
     \<lparr>conn_open = True, routes_cache = (Map.empty :: string \<rightharpoonup> (json \<times> int)),
      lock_table = [''route:ab'' \<mapsto> \<lparr>locked = True\<rparr>]\<rparr>
   = Suspended
   \<and> RedisCache_acquire_lock 100 ''uuid-2'' ''route:ab'' 30
     \<lparr>client_ready = True, script_registered = True,
      kv = [LOCK_KEY_PREFIX @ ''route:ab'' \<mapsto> (RToken ''uuid-1'', 120)]\<rparr>
   = Returned (Inr None,
      \<lparr>client_ready = True, script_registered = True,
       kv = [LOCK_KEY_PREFIX @ ''route:ab'' \<mapsto> ((RToken ''uuid-1'' :: json redis_val), 120)]\<rparr>)"
  by (simp add: SQLiteCache_acquire_lock_def Lock_acquire_def RedisCache_acquire_lock_def
      redis_lookup_def LOCK_KEY_PREFIX_def)

section \<open>Step text normalisation\<close>

lemma single_spaced_Cons:
  "single_spaced (c # s) \<longleftrightarrow>
     (\<not> isspace c \<or> (c = CHR '' '' \<and> (s = [] \<or> \<not> isspace (hd s)))) \<and> single_spaced s"
  by (cases s) auto

lemma dropWhile_hd_not: "dropWhile P s = [] \<or> \<not> P (hd (dropWhile P s))"
  by (metis hd_dropWhile)

lemma collapse_ws_Nil_iff: "collapse_ws s = [] \<longleftrightarrow> s = []"
  by (cases s) auto

lemma hd_collapse_ws_space: "s \<noteq> [] \<Longrightarrow> isspace (hd (collapse_ws s)) = isspace (hd s)"
  by (cases s) (auto simp: isspace_def)

lemma single_spaced_collapse_ws: "single_spaced (collapse_ws s)"
proof (induction s rule: collapse_ws.induct)
  case 1
  show ?case by simp
next
  case (2 c cs)
  show ?case
  proof (cases "isspace c")
    case True
    let ?r = "dropWhile isspace cs"
    have "?r = [] \<or> \<not> isspace (hd ?r)" by (rule dropWhile_hd_not)
    then have "collapse_ws ?r = [] \<or> \<not> isspace (hd (collapse_ws ?r))"
      by (metis collapse_ws.simps(1) hd_collapse_ws_space)
    with True 2 show ?thesis by (simp add: single_spaced_Cons)
  next
    case False
    with 2 show ?thesis by (simp add: single_spaced_Cons)
  qed
qed

lemma single_spaced_take: "single_spaced s \<Longrightarrow> single_spaced (take n s)"
proof (induction s arbitrary: n)
  case Nil
  show ?case by simp
next
  case (Cons c s)
  show ?case
  proof (cases n)
    case 0
    then show ?thesis by simp
  next
    case (Suc m)
    from Cons.prems have a: "single_spaced s"
      and b: "\<not> isspace c \<or> (c = CHR '' '' \<and> (s = [] \<or> \<not> isspace (hd s)))"
      by (simp_all add: single_spaced_Cons)
    have "take m s = [] \<or> hd (take m s) = hd s" by (cases s; cases m) auto
    with a b Cons.IH[of m] Suc show ?thesis
      by (auto simp: single_spaced_Cons)
  qed
qed

lemma single_spaced_dropWhile: "single_spaced s \<Longrightarrow> single_spaced (dropWhile P s)"
  by (induction s) (auto simp: single_spaced_Cons)

lemma rstrip_take: "rstrip s = take (length (rstrip s)) s"
proof -
  have "rev s = takeWhile isspace (rev s) @ dropWhile isspace (rev s)" by simp
  then have "s = rev (dropWhile isspace (rev s)) @ rev (takeWhile isspace (rev s))"
    by (metis rev_append rev_rev_ident)
  then have "take (length (rstrip s)) s = rstrip s"
    unfolding rstrip_def by (metis append_eq_conv_conj)
  then show ?thesis by simp
qed

lemma single_spaced_rstrip: "single_spaced s \<Longrightarrow> single_spaced (rstrip s)"
  by (metis rstrip_take single_spaced_take)

lemma single_spaced_strip: "single_spaced s \<Longrightarrow> single_spaced (strip s)"
  by (simp add: strip_def lstrip_def single_spaced_dropWhile single_spaced_rstrip)

lemma single_spaced_append:
  "single_spaced a \<Longrightarrow> single_spaced b \<Longrightarrow> b \<noteq> [] \<Longrightarrow> \<not> isspace (hd b) \<Longrightarrow> single_spaced (a @ b)"
proof (induction a)
  case Nil
  then show ?case by simp
next
  case (Cons c a)
  then show ?case by (cases a) (auto simp: single_spaced_Cons)
qed

lemma length_rstrip_le: "length (rstrip s) \<le> length s"
  by (simp add: rstrip_def length_dropWhile_le order.trans[OF length_dropWhile_le])

lemma rstrip_last: "rstrip s = [] \<or> \<not> isspace (last (rstrip s))"
proof -
  have "dropWhile isspace (rev s) = [] \<or> \<not> isspace (hd (dropWhile isspace (rev s)))"
    by (rule dropWhile_hd_not)
  then show ?thesis unfolding rstrip_def by (auto simp: last_rev)
qed

lemma strip_ends:
  "strip s = [] \<or> (\<not> isspace (hd (strip s)) \<and> \<not> isspace (last (strip s)))"
proof (cases "strip s = []")
  case True
  then show ?thesis by simp
next
  case False
  have h: "\<not> isspace (hd (strip s))"
    using False dropWhile_hd_not[of isspace "rstrip s"] by (auto simp: strip_def lstrip_def)
  have "suffix (strip s) (rstrip s)"
    unfolding strip_def lstrip_def by (rule suffix_dropWhile)
  then have "last (strip s) = last (rstrip s)" and "rstrip s \<noteq> []"
    using False by (auto simp: suffix_def)
  with rstrip_last[of s] h show ?thesis by auto
qed

lemma strip_fixed: "s = [] \<or> (\<not> isspace (hd s) \<and> \<not> isspace (last s)) \<Longrightarrow> strip s = s"
proof (cases "s = []")
  case True
  then show ?thesis by (simp add: strip_def lstrip_def rstrip_def)
next
  case False
  assume "s = [] \<or> (\<not> isspace (hd s) \<and> \<not> isspace (last s))"
  with False have a: "\<not> isspace (hd s)" and b: "\<not> isspace (last s)" by auto
  from False b have "dropWhile isspace (rev s) = rev s"
    by (cases "rev s") (auto simp: last_rev hd_rev)
  then have "rstrip s = s" by (simp add: rstrip_def)
  moreover from False a have "dropWhile isspace s = s" by (cases s) auto
  ultimately show ?thesis by (simp add: strip_def lstrip_def)
qed

lemma strip_idem: "strip (strip s) = strip s"
  using strip_ends[of s] by (rule strip_fixed)

lemma last_collapse_ws_space: "s \<noteq> [] \<Longrightarrow> isspace (last (collapse_ws s)) = isspace (last s)"
proof (induction s rule: collapse_ws.induct)
  case 1
  then show ?case by simp
next
  case (2 c cs)
  show ?case
  proof (cases "isspace c")
    case True
    note sp = True
    show ?thesis
    proof (cases "dropWhile isspace cs = []")
      case True
      then have all: "\<forall>x\<in>set cs. isspace x" by simp
      have "isspace (last (c # cs))" using sp all by (cases "cs = []") auto
      moreover have "isspace (CHR '' '')" by (simp add: isspace_def)
      moreover have "collapse_ws (c # cs) = [CHR '' '']"
        using sp True by (simp only: collapse_ws.simps if_True)
      ultimately show ?thesis by (metis last.simps)
    next
      case False
      then have ne: "cs \<noteq> []" by auto
      have "last (dropWhile isspace cs) = last cs"
        using False by (metis last_appendR takeWhile_dropWhile_id)
      moreover have "isspace (CHR '' '')" by (simp add: isspace_def)
      ultimately show ?thesis using 2(1)[OF sp False] sp False ne
        by (simp add: collapse_ws_Nil_iff)
    qed
  next
    case False
    with 2(2) show ?thesis by (cases "cs = []") (auto simp: collapse_ws_Nil_iff)
  qed
qed

lemma collapse_ws_append:
  "a = [] \<or> b = [] \<or> \<not> isspace (last a) \<or> \<not> isspace (hd b) \<Longrightarrow>
   collapse_ws (a @ b) = collapse_ws a @ collapse_ws b"
proof (induction a rule: collapse_ws.induct)
  case 1
  show ?case by simp
next
  case (2 c cs)
  show ?case
  proof (cases "isspace c")
    case True
    note sp = True
    have dw: "dropWhile isspace (cs @ b) = dropWhile isspace cs @ b"
    proof (cases "dropWhile isspace cs = []")
      case True
      then have all: "\<forall>x\<in>set cs. isspace x" by simp
      then have "isspace (last (c # cs))" using sp by (cases "cs = []") auto
      with 2(3) have "b = [] \<or> \<not> isspace (hd b)" by auto
      then have "dropWhile isspace b = b" by (cases b) auto
      with all True show ?thesis by (simp add: dropWhile_append2)
    next
      case False
      then obtain x where "x \<in> set cs" "\<not> isspace x" by auto
      then show ?thesis by (simp add: dropWhile_append1)
    qed
    have cond: "dropWhile isspace cs = [] \<or> b = [] \<or> \<not> isspace (last (dropWhile isspace cs))
        \<or> \<not> isspace (hd b)"
    proof (cases "dropWhile isspace cs = []")
      case True
      then show ?thesis by simp
    next
      case False
      then have "cs \<noteq> []" by auto
      moreover have "last (dropWhile isspace cs) = last cs"
        using False by (metis last_appendR takeWhile_dropWhile_id)
      ultimately show ?thesis using 2(3) by auto
    qed
    from 2(1)[OF sp cond] sp dw show ?thesis by simp
  next
    case False
    have "cs = [] \<or> b = [] \<or> \<not> isspace (last cs) \<or> \<not> isspace (hd b)"
      using 2(3) by (cases "cs = []") auto
    from 2(2)[OF False this] False show ?thesis by simp
  qed
qed

lemma digit_char_not_space: "d < 10 \<Longrightarrow> \<not> isspace (digit_char d)"
  by (simp add: isspace_def digit_char_def Let_def)

lemma str_nat_last: "str_nat n \<noteq> [] \<and> \<not> isspace (last (str_nat n))"
proof (induction n rule: str_nat.induct)
  case (1 n)
  show ?case
    by (subst (1 2) str_nat.simps) (simp add: digit_char_not_space)
qed

lemma str_int_last: "str_int i \<noteq> [] \<and> \<not> isspace (last (str_int i))"
  using str_nat_last by (simp add: str_int_def)

lemma raw_instruction_ends:
  "raw_instruction_of i n \<noteq> [] \<and> \<not> isspace (hd (raw_instruction_of i n))
     \<and> \<not> isspace (last (raw_instruction_of i n))"
proof -
  have paso: "\<not> isspace (hd (''Paso '' @ str_int n)) \<and> \<not> isspace (last (''Paso '' @ str_int n))"
    using str_int_last[of n] by (simp add: isspace_def)
  show ?thesis
  proof (cases "\<exists>s. i = JStr s \<and> strip s \<noteq> []")
    case True
    then obtain s where "i = JStr s" "strip s \<noteq> []" by blast
    then show ?thesis using strip_ends[of s] by (simp add: raw_instruction_of_def)
  next
    case False
    then have "raw_instruction_of i n = ''Paso '' @ str_int n"
      by (cases i) (auto simp: raw_instruction_of_def Let_def)
    with paso show ?thesis by simp
  qed
qed

lemma step_name_ends:
  "step_name_of name = [] \<or>
     (\<not> isspace (hd (step_name_of name)) \<and> \<not> isspace (last (step_name_of name)))"
  using strip_ends by (cases name) (auto simp: step_name_of_def)

lemma truncate_text_length: "length (truncate_text x) \<le> 240"
proof -
  have "length (rstrip (take 237 x)) \<le> 237"
    using length_rstrip_le[of "take 237 x"] by simp
  then show ?thesis by (simp add: truncate_text_def MAX_STEP_TEXT_LENGTH_def)
qed

lemma truncate_text_short: "length x \<le> 240 \<Longrightarrow> truncate_text x = x"
  by (simp add: truncate_text_def MAX_STEP_TEXT_LENGTH_def)

lemma truncate_text_long:
  "240 < length x \<Longrightarrow> prefix (rstrip (take 237 x)) x \<and> truncate_text x = rstrip (take 237 x) @ ''...''"
proof -
  assume "240 < length x"
  have "prefix (rstrip (take 237 x)) (take 237 x)"
    by (metis rstrip_take take_is_prefix)
  then have "prefix (rstrip (take 237 x)) x"
    using take_is_prefix prefix_order.trans by blast
  with \<open>240 < length x\<close> show ?thesis
    by (simp add: truncate_text_def MAX_STEP_TEXT_LENGTH_def)
qed

lemma truncate_text_spaced:
  assumes "single_spaced x" and "x = [] \<or> \<not> isspace (hd x) \<and> \<not> isspace (last x)"
  shows "single_spaced (truncate_text x) \<and> strip (truncate_text x) = truncate_text x"
proof (cases "240 < length x")
  case False
  then have "truncate_text x = x" by (simp add: truncate_text_short)
  with assms show ?thesis by (simp add: strip_fixed)
next
  case True
  let ?p = "rstrip (take 237 x)"
  have t: "truncate_text x = ?p @ ''...''" using True by (simp add: truncate_text_long)
  have dot: "\<not> isspace (CHR ''.'')" by (simp add: isspace_def)
  have sp: "single_spaced ?p" using assms(1) by (simp add: single_spaced_rstrip single_spaced_take)
  have s3: "single_spaced ''...''" using dot by simp
  have one: "single_spaced (?p @ ''...'')"
    by (rule single_spaced_append[OF sp s3]) (use dot in simp_all)
  from True assms(2) have xne: "x \<noteq> []" and hx: "\<not> isspace (hd x)" by auto
  have "prefix ?p x" using True by (simp add: truncate_text_long)
  then have "?p = [] \<or> hd ?p = hd x" by (metis hd_append2 prefix_def)
  then have "\<not> isspace (hd (?p @ ''...''))" using hx dot by (cases "?p = []") auto
  moreover have "\<not> isspace (last (?p @ ''...''))" using dot by simp
  ultimately have "strip (?p @ ''...'') = ?p @ ''...''" by (intro strip_fixed) simp
  with one t show ?thesis by simp
qed

lemma normalize_step_text_full:
  fixes instruction name :: json and step_index :: int
  defines "raw \<equiv> raw_instruction_of instruction step_index"
    and "nm \<equiv> step_name_of name"
  defines "full \<equiv> (if nm \<noteq> [] \<and> \<not> str_in (lower nm) (lower raw)
                    then collapse_ws raw @ '' en '' @ collapse_ws nm else collapse_ws raw)"
  shows "normalize_step_text instruction name step_index = truncate_text full"
    and "single_spaced full"
    and "full \<noteq> [] \<and> \<not> isspace (hd full) \<and> \<not> isspace (last full)"
proof -
  have r: "raw \<noteq> []" "\<not> isspace (hd raw)" "\<not> isspace (last raw)"
    using raw_instruction_ends[of instruction step_index] by (simp_all add: raw_def)
  have cr: "collapse_ws raw \<noteq> []" "\<not> isspace (hd (collapse_ws raw))"
    "\<not> isspace (last (collapse_ws raw))"
    using r by (simp_all add: collapse_ws_Nil_iff hd_collapse_ws_space last_collapse_ws_space)
  have sp: "isspace (CHR '' '')" and en: "\<not> isspace (CHR ''e'')" "\<not> isspace (CHR ''n'')"
    by (simp_all add: isspace_def)
  show ends: "full \<noteq> [] \<and> \<not> isspace (hd full) \<and> \<not> isspace (last full)"
  proof (cases "nm \<noteq> [] \<and> \<not> str_in (lower nm) (lower raw)")
    case False
    then show ?thesis using cr by (auto simp: full_def)
  next
    case True
    then have n: "nm \<noteq> []" "\<not> isspace (last nm)"
      using step_name_ends[of name] by (auto simp: nm_def)
    then have "collapse_ws nm \<noteq> []" "\<not> isspace (last (collapse_ws nm))"
      by (simp_all add: collapse_ws_Nil_iff last_collapse_ws_space)
    with True cr show ?thesis by (simp add: full_def)
  qed
  have eq: "collapse_ws (if name_appended nm raw then raw @ '' en '' @ nm else raw) = full"
  proof (cases "nm \<noteq> [] \<and> \<not> str_in (lower nm) (lower raw)")
    case False
    then show ?thesis by (auto simp: full_def name_appended_def)
  next
    case True
    then have n: "nm \<noteq> []" "\<not> isspace (hd nm)"
      using step_name_ends[of name] by (auto simp: nm_def)
    have a: "collapse_ws (raw @ '' en '' @ nm) = collapse_ws raw @ collapse_ws ('' en '' @ nm)"
      by (rule collapse_ws_append) (use r in simp)
    have b: "collapse_ws ('' en '' @ nm) = collapse_ws '' en '' @ collapse_ws nm"
      by (rule collapse_ws_append) (use n in simp)
    have c: "collapse_ws '' en '' = '' en ''" using sp en by simp
    from a b c True show ?thesis by (simp add: full_def name_appended_def)
  qed
  then show "single_spaced full" using single_spaced_collapse_ws by metis
  have "strip full = full" using ends by (intro strip_fixed) simp
  have "normalize_step_text instruction name step_index
      = truncate_text (strip (collapse_ws (if name_appended nm raw then raw @ '' en '' @ nm else raw)))"
    using r(1) by (simp add: normalize_step_text_def Let_def raw_def nm_def)
  also have "\<dots> = truncate_text full"
    using eq \<open>strip full = full\<close> by (simp only:)
  finally show "normalize_step_text instruction name step_index = truncate_text full" .
qed

text \<open>
  C8 (amended). Let \<open>raw\<close> be the stripped instruction (or \<open>Paso n\<close> when it is empty or
  not a string) and \<open>nm\<close> the stripped name. The full text is the whitespace-collapsed
  \<open>raw\<close>, followed by \<open>en\<close> and the whitespace-collapsed name exactly when the name is
  not empty and does not occur in \<open>raw\<close> ignoring case. The step text is the full text when
  that has at most 240 characters, and otherwise a prefix of it followed by an ellipsis;
  it never exceeds 240 characters, is single-spaced and has no whitespace at either end.
  Nothing bounds how often the name occurs in the instruction itself.
\<close>

theorem normalize_step_text_shape:
  fixes instruction name :: json and step_index :: int
  defines "raw \<equiv> raw_instruction_of instruction step_index"
    and "nm \<equiv> step_name_of name"
  defines "full \<equiv> (if nm \<noteq> [] \<and> \<not> str_in (lower nm) (lower raw)
                    then collapse_ws raw @ '' en '' @ collapse_ws nm else collapse_ws raw)"
  shows "(length full \<le> 240 \<longrightarrow> normalize_step_text instruction name step_index = full)
    \<and> (240 < length full \<longrightarrow>
         (\<exists>p. prefix p full \<and> normalize_step_text instruction name step_index = p @ ''...''))
    \<and> length (normalize_step_text instruction name step_index) \<le> 240
    \<and> single_spaced (normalize_step_text instruction name step_index)
    \<and> strip (normalize_step_text instruction name step_index)
        = normalize_step_text instruction name step_index"
proof -
  have t: "normalize_step_text instruction name step_index = truncate_text full"
    and s: "single_spaced full"
    and e: "full \<noteq> [] \<and> \<not> isspace (hd full) \<and> \<not> isspace (last full)"
    unfolding full_def nm_def raw_def by (rule normalize_step_text_full)+
  have "240 < length full \<longrightarrow> (\<exists>p. prefix p full \<and> truncate_text full = p @ ''...'')"
    using truncate_text_long[of full] by blast
  moreover have "single_spaced (truncate_text full) \<and> strip (truncate_text full) = truncate_text full"
    using s e by (intro truncate_text_spaced) simp_all
  ultimately show ?thesis
    using t truncate_text_short[of full] truncate_text_length[of full] by simp
qed

theorem normalize_step_text_shape_witness:
  "normalize_step_text (JStr ''Gira a la izquierda'') (JStr ''Pasillo A'') 1
     = ''Gira a la izquierda en Pasillo A''
   \<and> count_occurrences ''Pasillo A'' ''Gira a la izquierda en Pasillo A'' = 1
   \<and> length ''Gira a la izquierda en Pasillo A'' \<le> 240"
proof -
  have e1: "raw_instruction_of (JStr ''Gira a la izquierda'') 1 = ''Gira a la izquierda''"
    by code_simp
  have e2: "step_name_of (JStr ''Pasillo A'') = ''Pasillo A''"
    by code_simp
  have e3: "\<not> str_in (lower ''Pasillo A'') (lower ''Gira a la izquierda'')"
    by code_simp
  have e4: "collapse_ws ''Gira a la izquierda'' = ''Gira a la izquierda''"
    by code_simp
  have e5: "collapse_ws ''Pasillo A'' = ''Pasillo A''"
    by code_simp
  have e6: "count_occurrences ''Pasillo A'' ''Gira a la izquierda en Pasillo A'' = 1"
    by code_simp
  from normalize_step_text_shape
    [where instruction = "JStr ''Gira a la izquierda''" and name = "JStr ''Pasillo A''"
       and step_index = 1]
  have "normalize_step_text (JStr ''Gira a la izquierda'') (JStr ''Pasillo A'') 1
     = ''Gira a la izquierda en Pasillo A''"
    unfolding e1 e2 e4 e5 using e3 by simp
  with e6 show ?thesis by simp
qed

text \<open>
  As stated, C8 has the name occur exactly once in the text; an instruction that already
  names the place twice keeps both occurrences.
\<close>

theorem normalize_step_text_name_twice:
  "count_occurrences ''Pasillo A''
     (normalize_step_text (JStr ''Pasillo A y Pasillo A'') (JStr ''Pasillo A'') 1) = 2"
  by code_simp

section \<open>Retries of the upstream client\<close>



lemma sleeps_of_append: "sleeps_of (a @ b) = sleeps_of a @ sleeps_of b"
  by (induction a rule: sleeps_of.induct) auto

lemma posts_of_append: "posts_of (a @ b) = posts_of a @ posts_of b"
  by (induction a rule: posts_of.induct) auto







lemma posts_of_schedule:
  "posts_of (concat (map (\<lambda>n. [Post n, Sleep (f n)]) ns) @ [Post k]) = ns @ [k]"
  by (induction ns) auto





section \<open>Error details\<close>


























section \<open>The graph engine\<close>


lemma less_dist_mono: "\<not> less_dist a x \<Longrightarrow> a \<le> b \<Longrightarrow> \<not> less_dist b x"
  by (cases x) (auto simp: less_dist_def)

lemma less_dist_trans: "less_dist a x \<Longrightarrow> less_dist b (Finite a) \<Longrightarrow> less_dist b x"
  by (cases x) (auto simp: less_dist_def)

lemma less_dist_irrefl: "\<not> less_dist a (Finite a)"
  by (simp add: less_dist_def)

text \<open>What one pass over the outgoing edges of a node does to the state.\<close>

lemma relax_props:
  assumes "\<forall>(v, w) \<in> set es. distancias v \<noteq> None"
  shows "\<exists>distancias' anterior' pushed.
      relax u d es (distancias, anterior, cola) = Inr (distancias', anterior', cola @ pushed)
      \<and> (\<forall>n. distancias n \<noteq> None \<longrightarrow> distancias' n \<noteq> None)
      \<and> (\<forall>n known x. distancias n = Some known \<longrightarrow> \<not> less_dist x known \<longrightarrow>
            (\<exists>known'. distancias' n = Some known' \<and> \<not> less_dist x known'))
      \<and> (\<forall>(x, n) \<in> set pushed. \<exists>w. (n, w) \<in> set es \<and> x = d + w)
      \<and> (\<forall>v p. anterior' v = Some p \<longrightarrow> anterior v = Some p \<or> (p = u \<and> (\<exists>w. (v, w) \<in> set es)))
      \<and> (\<forall>(v, w) \<in> set es. \<exists>known'. distancias' v = Some known' \<and> \<not> less_dist (d + w) known')
      \<and> ((\<forall>(v, w) \<in> set es. \<exists>known. distancias v = Some known \<and> \<not> less_dist (d + w) known)
            \<longrightarrow> distancias' = distancias \<and> anterior' = anterior \<and> pushed = [])"
  using assms
proof (induction es arbitrary: distancias anterior cola)
  case Nil
  show ?case by simp
next
  case (Cons e es)
  obtain v w where e: "e = (v, w)" by (cases e)
  from Cons.prems e obtain known where known: "distancias v = Some known" by auto
  show ?case
  proof (cases "less_dist (d + w) known")
    case False
    have pre: "\<forall>(v, w) \<in> set es. distancias v \<noteq> None" using Cons.prems by auto
    from Cons.IH[OF pre, of anterior cola] obtain distancias' anterior' pushed where
      r: "relax u d es (distancias, anterior, cola) = Inr (distancias', anterior', cola @ pushed)"
      and dom: "\<forall>n. distancias n \<noteq> None \<longrightarrow> distancias' n \<noteq> None"
      and mono: "\<forall>n known x. distancias n = Some known \<longrightarrow> \<not> less_dist x known \<longrightarrow>
            (\<exists>known'. distancias' n = Some known' \<and> \<not> less_dist x known')"
      and push: "\<forall>(x, n) \<in> set pushed. \<exists>w. (n, w) \<in> set es \<and> x = d + w"
      and ant: "\<forall>v p. anterior' v = Some p \<longrightarrow> anterior v = Some p \<or> (p = u \<and> (\<exists>w. (v, w) \<in> set es))"
      and after: "\<forall>(v, w) \<in> set es. \<exists>known'. distancias' v = Some known' \<and> \<not> less_dist (d + w) known'"
      and same: "(\<forall>(v, w) \<in> set es. \<exists>known. distancias v = Some known \<and> \<not> less_dist (d + w) known)
            \<longrightarrow> distancias' = distancias \<and> anterior' = anterior \<and> pushed = []"
      by blast
    have here: "\<exists>known'. distancias' v = Some known' \<and> \<not> less_dist (d + w) known'"
      using mono known False by blast
    show ?thesis
      apply (rule exI[of _ distancias'], rule exI[of _ anterior'], rule exI[of _ pushed])
      using r dom mono push ant after same here known False e
      by (auto simp: Let_def) blast+
  next
    case True
    let ?dist = "distancias(v \<mapsto> Finite (d + w))"
    let ?ant = "anterior(v \<mapsto> u)"
    let ?q = "cola @ [(d + w, v)]"
    have pre: "\<forall>(v, w) \<in> set es. ?dist v \<noteq> None" using Cons.prems by auto
    from Cons.IH[OF pre, of ?ant ?q] obtain distancias' anterior' pushed where
      r: "relax u d es (?dist, ?ant, ?q) = Inr (distancias', anterior', ?q @ pushed)"
      and dom: "\<forall>n. ?dist n \<noteq> None \<longrightarrow> distancias' n \<noteq> None"
      and mono: "\<forall>n known x. ?dist n = Some known \<longrightarrow> \<not> less_dist x known \<longrightarrow>
            (\<exists>known'. distancias' n = Some known' \<and> \<not> less_dist x known')"
      and push: "\<forall>(x, n) \<in> set pushed. \<exists>w. (n, w) \<in> set es \<and> x = d + w"
      and ant: "\<forall>v' p. anterior' v' = Some p \<longrightarrow> ?ant v' = Some p \<or> (p = u \<and> (\<exists>w. (v', w) \<in> set es))"
      and after: "\<forall>(v, w) \<in> set es. \<exists>known'. distancias' v = Some known' \<and> \<not> less_dist (d + w) known'"
      by blast
    have c1: "relax u d (e # es) (distancias, anterior, cola)
        = Inr (distancias', anterior', cola @ ((d + w, v) # pushed))"
      using r known True e by (simp add: Let_def)
    have c2: "\<forall>n. distancias n \<noteq> None \<longrightarrow> distancias' n \<noteq> None"
      using dom by auto
    have c3: "\<forall>n known x. distancias n = Some known \<longrightarrow> \<not> less_dist x known \<longrightarrow>
            (\<exists>known'. distancias' n = Some known' \<and> \<not> less_dist x known')"
    proof (intro allI impI)
      fix n kn x
      assume a: "distancias n = Some kn" "\<not> less_dist x kn"
      show "\<exists>known'. distancias' n = Some known' \<and> \<not> less_dist x known'"
      proof (cases "n = v")
        case False
        with a mono show ?thesis by auto
      next
        case True
        with a known have "kn = known" by simp
        with a True \<open>less_dist (d + w) known\<close> have "\<not> less_dist x (Finite (d + w))"
          using less_dist_trans by blast
        with mono True show ?thesis by auto
      qed
    qed
    have c4: "\<forall>(x, n) \<in> set ((d + w, v) # pushed). \<exists>w'. (n, w') \<in> set (e # es) \<and> x = d + w'"
      using push e by auto
    have c5: "\<forall>v' p. anterior' v' = Some p \<longrightarrow>
        anterior v' = Some p \<or> (p = u \<and> (\<exists>w'. (v', w') \<in> set (e # es)))"
    proof (intro allI impI)
      fix v' p
      assume "anterior' v' = Some p"
      with ant have "?ant v' = Some p \<or> (p = u \<and> (\<exists>w. (v', w) \<in> set es))" by blast
      then show "anterior v' = Some p \<or> (p = u \<and> (\<exists>w'. (v', w') \<in> set (e # es)))"
        using e by (cases "v' = v") auto
    qed
    have c6: "\<forall>(v', w') \<in> set (e # es). \<exists>known'. distancias' v' = Some known' \<and> \<not> less_dist (d + w') known'"
      using after mono less_dist_irrefl[of "d + w"] e by auto
    have c7: "(\<forall>(v', w') \<in> set (e # es). \<exists>known. distancias v' = Some known \<and> \<not> less_dist (d + w') known)
            \<longrightarrow> distancias' = distancias \<and> anterior' = anterior \<and> (d + w, v) # pushed = []"
      using known True e by auto
    show ?thesis
      apply (rule exI[of _ distancias'], rule exI[of _ anterior'], rule exI[of _ "(d + w, v) # pushed"])
      using c1 c2 c3 c4 c5 c6 c7 by blast
  qed
qed

lemma min_list_least:
  fixes q :: "(rat \<times> int) list"
  assumes "q \<noteq> []" and "min_list q = (d, u)"
  shows "(d, u) \<in> set q" and "\<And>x n. (x, n) \<in> set q \<Longrightarrow> d \<le> x"
proof -
  have m: "(d, u) = Min (set q)" using assms by (simp add: min_list_Min)
  then show "(d, u) \<in> set q" using assms(1) Min_in[of "set q"] by simp
  fix x n assume "(x, n) \<in> set q"
  then have "(d, u) \<le> (x, n)" using m by simp
  then show "d \<le> x" by (auto simp: less_eq_prod_def)
qed

lemma dijkstra_invI:
  assumes "P \<subseteq> fst ` set g"
    and "\<And>n. n \<in> fst ` set g \<Longrightarrow> distancias n \<noteq> None"
    and "\<And>x n. (x, n) \<in> set cola \<Longrightarrow> n \<in> fst ` set g \<and> (inicio, n) \<in> (edges g)\<^sup>*"
    and "\<And>v u. anterior v = Some u \<Longrightarrow> (inicio, v) \<in> (edges g)\<^sup>*"
    and "\<And>u vecinos v peso x n. u \<in> P \<Longrightarrow> map_of g u = Some vecinos \<Longrightarrow>
           (v, peso) \<in> set vecinos \<Longrightarrow> (x, n) \<in> set cola \<Longrightarrow>
           \<exists>known. distancias v = Some known \<and> \<not> less_dist (x + peso) known"
  shows "dijkstra_inv g inicio P distancias anterior cola"
  unfolding dijkstra_inv_def using assms by blast

lemma dijkstra_invD:
  assumes "dijkstra_inv g inicio P distancias anterior cola"
  shows "P \<subseteq> fst ` set g"
    and "\<And>n. n \<in> fst ` set g \<Longrightarrow> distancias n \<noteq> None"
    and "\<And>x n. (x, n) \<in> set cola \<Longrightarrow> n \<in> fst ` set g \<and> (inicio, n) \<in> (edges g)\<^sup>*"
    and "\<And>v u. anterior v = Some u \<Longrightarrow> (inicio, v) \<in> (edges g)\<^sup>*"
    and "\<And>u vecinos v peso x n. u \<in> P \<Longrightarrow> map_of g u = Some vecinos \<Longrightarrow>
           (v, peso) \<in> set vecinos \<Longrightarrow> (x, n) \<in> set cola \<Longrightarrow>
           \<exists>known. distancias v = Some known \<and> \<not> less_dist (x + peso) known"
  using assms unfolding dijkstra_inv_def by blast+

lemma dijkstra_step_inv:
  assumes wf: "wf_graph g" and inv: "dijkstra_inv g inicio P distancias anterior cola"
  shows "dijkstra_step g destino (distancias, anterior, cola) = Inl (Inr anterior)
    \<or> (\<exists>P' distancias' anterior' cola'.
          dijkstra_step g destino (distancias, anterior, cola) = Inr (distancias', anterior', cola')
          \<and> dijkstra_inv g inicio P' distancias' anterior' cola'
          \<and> (card (fst ` set g - P') < card (fst ` set g - P)
              \<or> (P' = P \<and> length cola' < length cola)))"
proof (cases "cola = []")
  case True
  then show ?thesis by (simp add: dijkstra_step_def)
next
  case False
  obtain d u where m: "min_list cola = (d, u)" by (cases "min_list cola")
  note least = min_list_least[OF False m]
  show ?thesis
  proof (cases "u = destino")
    case True
    with False m show ?thesis by (simp add: dijkstra_step_def)
  next
    case ne: False
    note sub = dijkstra_invD(1)[OF inv] and dom = dijkstra_invD(2)[OF inv]
      and qs = dijkstra_invD(3)[OF inv] and ants = dijkstra_invD(4)[OF inv]
      and closed = dijkstra_invD(5)[OF inv]
    from qs[OF least(1)] have un: "u \<in> fst ` set g" and ur: "(inicio, u) \<in> (edges g)\<^sup>*"
      by simp_all
    from un obtain es where es: "map_of g u = Some es"
      by (metis map_of_eq_None_iff not_Some_eq)
    then have mem: "(u, es) \<in> set g" by (rule map_of_SomeD)
    have tgt: "v \<in> fst ` set g \<and> 0 \<le> w" if "(v, w) \<in> set es" for v w
      using wf mem that unfolding wf_graph_def by fastforce
    have edge: "(u, v) \<in> edges g" if "(v, w) \<in> set es" for v w
      using es that unfolding edges_def by blast
    have reach: "(inicio, v) \<in> (edges g)\<^sup>*" if "(v, w) \<in> set es" for v w
      using ur edge[OF that] by (rule rtrancl_into_rtrancl)
    have pre: "distancias v \<noteq> None" if "(v, w) \<in> set es" for v w
      using tgt[OF that] dom by blast
    let ?q0 = "remove1 (d, u) cola"
    have q0: "set ?q0 \<subseteq> set cola" by (rule set_remove1_subset)
    have pre': "\<forall>(v, w) \<in> set es. distancias v \<noteq> None" using pre by auto
    from relax_props[OF pre', of u d anterior ?q0] obtain distancias' anterior' pushed where
      r: "relax u d es (distancias, anterior, ?q0) = Inr (distancias', anterior', ?q0 @ pushed)"
      and dom0: "\<forall>n. distancias n \<noteq> None \<longrightarrow> distancias' n \<noteq> None"
      and mono0: "\<forall>n known x. distancias n = Some known \<longrightarrow> \<not> less_dist x known \<longrightarrow>
            (\<exists>known'. distancias' n = Some known' \<and> \<not> less_dist x known')"
      and push0: "\<forall>(x, n) \<in> set pushed. \<exists>w. (n, w) \<in> set es \<and> x = d + w"
      and ant0: "\<forall>v p. anterior' v = Some p \<longrightarrow> anterior v = Some p \<or> (p = u \<and> (\<exists>w. (v, w) \<in> set es))"
      and after0: "\<forall>(v, w) \<in> set es. \<exists>known'. distancias' v = Some known' \<and> \<not> less_dist (d + w) known'"
      and same0: "(\<forall>(v, w) \<in> set es. \<exists>known. distancias v = Some known \<and> \<not> less_dist (d + w) known)
            \<longrightarrow> distancias' = distancias \<and> anterior' = anterior \<and> pushed = []"
      by blast
    have dom': "distancias' n \<noteq> None" if "distancias n \<noteq> None" for n
      using dom0 that by blast
    have mono: "\<exists>known'. distancias' n = Some known' \<and> \<not> less_dist x known'"
      if "distancias n = Some known" "\<not> less_dist x known" for n known x
      using mono0 that by blast
    have push: "\<exists>w. (n, w) \<in> set es \<and> x = d + w" if "(x, n) \<in> set pushed" for x n
      using bspec[OF push0 that] by simp
    have ant': "anterior v = Some p \<or> (\<exists>w. (v, w) \<in> set es)" if "anterior' v = Some p" for v p
      using ant0 that by blast
    have after: "\<exists>known'. distancias' v = Some known' \<and> \<not> less_dist (d + w) known'"
      if "(v, w) \<in> set es" for v w
      using bspec[OF after0 that] by simp
    have same: "distancias' = distancias \<and> anterior' = anterior \<and> pushed = []"
      if "\<And>v w. (v, w) \<in> set es \<Longrightarrow> \<exists>known. distancias v = Some known \<and> \<not> less_dist (d + w) known"
    proof -
      have "\<forall>(v, w) \<in> set es. \<exists>known. distancias v = Some known \<and> \<not> less_dist (d + w) known"
        using that by auto
      with same0 show ?thesis by blast
    qed
    have step: "dijkstra_step g destino (distancias, anterior, cola)
        = Inr (distancias', anterior', ?q0 @ pushed)"
      using False m ne es r by (simp add: dijkstra_step_def)
    show ?thesis
    proof (cases "u \<in> P")
      case True
      have "distancias' = distancias \<and> anterior' = anterior \<and> pushed = []"
        by (rule same) (rule closed[OF True es _ least(1)])
      then have eq: "distancias' = distancias" "anterior' = anterior" "pushed = []" by simp_all
      have inv0: "dijkstra_inv g inicio P distancias anterior ?q0"
      proof (rule dijkstra_invI)
        show "P \<subseteq> fst ` set g" by (rule sub)
        show "\<And>n. n \<in> fst ` set g \<Longrightarrow> distancias n \<noteq> None" by (rule dom)
        show "\<And>x n. (x, n) \<in> set ?q0 \<Longrightarrow> n \<in> fst ` set g \<and> (inicio, n) \<in> (edges g)\<^sup>*"
          using qs q0 by blast
        show "\<And>v u. anterior v = Some u \<Longrightarrow> (inicio, v) \<in> (edges g)\<^sup>*" by (rule ants)
        show "\<And>u vecinos v peso x n. u \<in> P \<Longrightarrow> map_of g u = Some vecinos \<Longrightarrow>
           (v, peso) \<in> set vecinos \<Longrightarrow> (x, n) \<in> set ?q0 \<Longrightarrow>
           \<exists>known. distancias v = Some known \<and> \<not> less_dist (x + peso) known"
          using closed q0 by blast
      qed
      have "length ?q0 < length cola"
        using least(1) length_pos_if_in_set[OF least(1)] by (simp add: length_remove1)
      with step eq inv0 show ?thesis by auto
    next
      case notin: False
      let ?P = "insert u P"
      let ?q = "?q0 @ pushed"
      have split: "(x, n) \<in> set cola \<or> (\<exists>w. (n, w) \<in> set es \<and> x = d + w)"
        if "(x, n) \<in> set ?q" for x n
        using that q0 push by auto
      have ge: "d \<le> x" if "(x, n) \<in> set ?q" for x n
        using split[OF that] least(2) tgt by fastforce
      have inv': "dijkstra_inv g inicio ?P distancias' anterior' ?q"
      proof (rule dijkstra_invI)
        show "?P \<subseteq> fst ` set g" using sub un by auto
        show "\<And>n. n \<in> fst ` set g \<Longrightarrow> distancias' n \<noteq> None" using dom dom' by blast
        show "n \<in> fst ` set g \<and> (inicio, n) \<in> (edges g)\<^sup>*" if "(x, n) \<in> set ?q" for x n
          using split[OF that] qs tgt reach by blast
        show "(inicio, v) \<in> (edges g)\<^sup>*" if "anterior' v = Some p" for v p
          using ant'[OF that] ants reach by blast
        show "\<exists>known. distancias' v = Some known \<and> \<not> less_dist (x + peso) known"
          if u': "u' \<in> ?P" and vs: "map_of g u' = Some vecinos"
            and vp: "(v, peso) \<in> set vecinos" and xn: "(x, n) \<in> set ?q"
          for u' vecinos v peso x n
        proof -
          have dx: "d + peso \<le> x + peso" using ge[OF xn] by simp
          show ?thesis
          proof (cases "u' = u")
            case True
            with vs es have "vecinos = es" by simp
            with after vp obtain known' where
              k: "distancias' v = Some known'" "\<not> less_dist (d + peso) known'" by blast
            from less_dist_mono[OF k(2) dx] k(1) show ?thesis by blast
          next
            case False
            with u' have "u' \<in> P" by simp
            from closed[OF this vs vp least(1)] obtain known where
              k: "distancias v = Some known" "\<not> less_dist (d + peso) known" by blast
            from mono[OF k(1) less_dist_mono[OF k(2) dx]] show ?thesis .
          qed
        qed
      qed
      have "fst ` set g - ?P \<subset> fst ` set g - P" using un notin by auto
      then have "card (fst ` set g - ?P) < card (fst ` set g - P)"
        by (intro psubset_card_mono) auto
      with step inv' show ?thesis by blast
    qed
  qed
qed

lemma dijkstra_loop_terminates:
  assumes wf: "wf_graph g"
  shows "dijkstra_inv g inicio P distancias anterior cola \<Longrightarrow>
    \<exists>anterior'. dijkstra_loop g destino (distancias, anterior, cola) = Some (Inr anterior')
      \<and> (\<forall>v u. anterior' v = Some u \<longrightarrow> (inicio, v) \<in> (edges g)\<^sup>*)"
proof -
  define R :: "((int set \<times> dstate) \<times> (int set \<times> dstate)) set" where
    "R = inv_image (less_than <*lex*> less_than)
           (\<lambda>(P, (distancias, anterior, cola)). (card (fst ` set g - P), length cola))"
  have wfR: "wf R" unfolding R_def by (intro wf_inv_image wf_lex_prod wf_less_than)
  have main: "dijkstra_inv g inicio (fst x) (fst (snd x)) (fst (snd (snd x))) (snd (snd (snd x))) \<longrightarrow>
    (\<exists>anterior'. dijkstra_loop g destino (snd x) = Some (Inr anterior')
      \<and> (\<forall>v u. anterior' v = Some u \<longrightarrow> (inicio, v) \<in> (edges g)\<^sup>*))" for x
  proof (induction x rule: wf_induct_rule[OF wfR])
    case (1 x)
    obtain P di an co where x: "x = (P, di, an, co)" by (cases x) auto
    show ?case
    proof
      assume "dijkstra_inv g inicio (fst x) (fst (snd x)) (fst (snd (snd x))) (snd (snd (snd x)))"
      then have inv: "dijkstra_inv g inicio P di an co" by (simp add: x)
      from dijkstra_step_inv[OF wf inv, of destino]
      consider (stop) "dijkstra_step g destino (di, an, co) = Inl (Inr an)"
        | (go) P' di' an' co' where
            "dijkstra_step g destino (di, an, co) = Inr (di', an', co')"
            "dijkstra_inv g inicio P' di' an' co'"
            "card (fst ` set g - P') < card (fst ` set g - P)
              \<or> (P' = P \<and> length co' < length co)"
        by blast
      then show "\<exists>anterior'. dijkstra_loop g destino (snd x) = Some (Inr anterior')
          \<and> (\<forall>v u. anterior' v = Some u \<longrightarrow> (inicio, v) \<in> (edges g)\<^sup>*)"
      proof cases
        case stop
        have "dijkstra_loop g destino (di, an, co) = Some (Inr an)"
          by (subst dijkstra_loop.simps) (simp add: stop)
        moreover have "\<forall>v u. an v = Some u \<longrightarrow> (inicio, v) \<in> (edges g)\<^sup>*"
          using dijkstra_invD(4)[OF inv] by blast
        ultimately show ?thesis by (simp add: x)
      next
        case go
        from go(3) have "((P', di', an', co'), x) \<in> R"
          by (auto simp: R_def x)
        from 1[OF this] go(2) obtain anterior' where
          l: "dijkstra_loop g destino (di', an', co') = Some (Inr anterior')"
          and re: "\<forall>v u. anterior' v = Some u \<longrightarrow> (inicio, v) \<in> (edges g)\<^sup>*"
          by auto
        have "dijkstra_loop g destino (di, an, co) = Some (Inr anterior')"
          by (subst dijkstra_loop.simps) (simp add: go(1) l)
        with re show ?thesis by (auto simp: x)
      qed
    qed
  qed
  assume "dijkstra_inv g inicio P distancias anterior cola"
  with main[of "(P, distancias, anterior, cola)"] show ?thesis by simp
qed

lemma dijkstra_unreachable:
  assumes wf: "wf_graph g" and ini: "inicio \<in> fst ` set g"
    and un: "(inicio, destino) \<notin> (edges g)\<^sup>*"
  shows "dijkstra g inicio destino = Some (Inr [])"
proof -
  let ?d = "\<lambda>nodo. if nodo = inicio then Some (Finite 0)
                    else map_option (\<lambda>edges. Infinity) (map_of g nodo)"
  have nodes: "map_of g n \<noteq> None" if "n \<in> fst ` set g" for n
    using that by (simp add: map_of_eq_None_iff)
  have inv: "dijkstra_inv g inicio {} ?d Map.empty [(0, inicio)]"
    by (rule dijkstra_invI) (use ini nodes in auto)
  from dijkstra_loop_terminates[OF wf inv, of destino] obtain anterior' where
    l: "dijkstra_loop g destino (?d, Map.empty, [(0, inicio)]) = Some (Inr anterior')"
    and re: "\<forall>v u. anterior' v = Some u \<longrightarrow> (inicio, v) \<in> (edges g)\<^sup>*"
    by blast
  from re un have none: "anterior' destino = None" by (cases "anterior' destino") auto
  have w: "walk_back anterior' destino [] = Some (destino, [])"
    by (subst walk_back.simps) (simp add: none)
  from un have "destino \<noteq> inicio" by auto
  with l w show ?thesis by (simp add: dijkstra_def)
qed

lemma example_graph_routes:
  assumes "p \<noteq> []" "hd p = 1" "last p = 3" "path_weight example_graph p = Some w"
  shows "10 \<le> w"
proof -
  from assms(1,2) obtain r where p: "p = 1 # r" by (cases p) auto
  show ?thesis
  proof (cases r)
    case Nil
    with p assms(3) show ?thesis by simp
  next
    case (Cons a r1)
    note r = Cons
    from assms(4) p r have a: "a = 2 \<or> a = 3"
      by (auto simp: example_graph_def split: if_splits option.splits)
    show ?thesis
    proof (cases r1)
      case Nil
      with p r a assms(3,4) show ?thesis by (auto simp: example_graph_def)
    next
      case (Cons b r2)
      note r1 = Cons
      with assms(4) p r a have a2: "a = 2" and b: "b = 3"
        by (auto simp: example_graph_def split: if_splits option.splits)
      show ?thesis
      proof (cases r2)
        case Nil
        with p r r1 a2 b assms(4) show ?thesis by (auto simp: example_graph_def)
      next
        case (Cons c r3)
        with assms(4) p r r1 a2 b show ?thesis
          by (auto simp: example_graph_def split: if_splits option.splits)
      qed
    qed
  qed
qed

text \<open>
  C7 (amended). On the graph with edges 1 to 2 (5), 2 to 3 (5) and 1 to 3 (20), \<open>dijkstra\<close>
  returns \<open>[1, 2, 3]\<close>, of weight 10, and no route from 1 to 3 weighs less. On every
  graph in which each neighbour is a location of the graph and no weight is negative, from
  a start that is a location of the graph, a destination with no directed path from the
  start gives the empty list: both loops end and nothing is raised.
\<close>

theorem dijkstra_shortest_and_soft:
  "dijkstra example_graph 1 3 = Some (Inr [1, 2, 3])
   \<and> path_weight example_graph [1, 2, 3] = Some 10
   \<and> path_weight example_graph [1, 3] = Some 20
   \<and> (\<forall>p w. p \<noteq> [] \<and> hd p = 1 \<and> last p = 3 \<and> path_weight example_graph p = Some w
         \<longrightarrow> 10 \<le> w)
   \<and> (wf_graph g \<and> inicio \<in> fst ` set g \<and> (inicio, destino) \<notin> (edges g)\<^sup>*
         \<longrightarrow> dijkstra g inicio destino = Some (Inr []))"
proof -
  have "dijkstra example_graph 1 3 = Some (Inr [1, 2, 3])" by code_simp
  moreover have "path_weight example_graph [1, 2, 3] = Some 10"
    by (simp add: example_graph_def)
  moreover have "path_weight example_graph [1, 3] = Some 20"
    by (simp add: example_graph_def)
  ultimately show ?thesis
    using example_graph_routes dijkstra_unreachable by blast
qed

theorem dijkstra_shortest_and_soft_witness:
  "dijkstra example_graph 3 1 = Some (Inr [])"
proof -
  have wf: "wf_graph example_graph"
    by (simp add: wf_graph_def example_graph_def)
  have n: "3 \<in> fst ` set example_graph"
    by (simp add: example_graph_def)
  have "(3, y) \<notin> edges example_graph" for y
    by (simp add: edges_def example_graph_def)
  then have un: "(3, 1) \<notin> (edges example_graph)\<^sup>*"
    by (auto elim: converse_rtranclE)
  from dijkstra_shortest_and_soft[of example_graph 3 1] wf n un show ?thesis by blast
qed

text \<open>
  As stated, C7 has every unreachable pair of every graph answered with the empty list.
  A start that is not a location of the graph, and an edge to an id that is not a
  location, raise \<open>KeyError\<close> instead, with no path to the destination in either case.
\<close>

theorem dijkstra_unknown_start_raises:
  "dijkstra example_graph 7 3 = Some (Inl (KeyError ''7''))
   \<and> (7, 3) \<notin> (edges example_graph)\<^sup>*
   \<and> dijkstra [(1, [(2, 5)]), (3, [])] 1 3 = Some (Inl (KeyError ''2''))
   \<and> (1, 3) \<notin> (edges [(1, [(2, 5)]), (3, [])])\<^sup>*"
proof -
  have a: "dijkstra example_graph 7 3 = Some (Inl (KeyError ''7''))" by code_simp
  have "(7, y) \<notin> edges example_graph" for y
    by (simp add: edges_def example_graph_def)
  then have b: "(7, 3) \<notin> (edges example_graph)\<^sup>*"
    by (auto elim: converse_rtranclE)
  have c: "dijkstra [(1, [(2, 5)]), (3, [])] 1 3 = Some (Inl (KeyError ''2''))" by code_simp
  have e1: "(1, y) \<in> edges [(1, [(2, 5)]), (3, [])] \<Longrightarrow> y = 2" for y
    by (auto simp: edges_def split: if_splits)
  have e2: "(2, y) \<notin> edges [(1, [(2, 5)]), (3, [])]" for y
    by (simp add: edges_def)
  have d: "(1, 3) \<notin> (edges [(1, [(2, 5)]), (3, [])])\<^sup>*"
  proof
    assume "(1, 3) \<in> (edges [(1, [(2, 5)]), (3, [])])\<^sup>*"
    then show False
    proof (cases rule: converse_rtranclE)
      case base
      then show False by simp
    next
      case (step y)
      from e1[OF step(1)] have "y = 2" .
      with step(2) show False using e2 by (auto elim: converse_rtranclE)
    qed
  qed
  from a b c d show ?thesis by blast
qed

end
